theory Spec2Isabelle
  imports Main
begin

section \<open>The service manager of \<^verbatim>\<open>python_service_manager.py\<close>\<close>

text \<open>
  The class \<^verbatim>\<open>PythonServiceManager\<close> owns one child process, probes its health
  endpoint and restarts it. Its methods are embedded as functions over an explicit state.
  Everything the methods ask of the outside world (the HTTP probe, the exit status of the
  child, the file system, the spawn, interrupts during a sleep) is answered by an
  environment, which the theorems quantify over.
\<close>

subsection \<open>Exceptions and results\<close>

text \<open>
  The exceptions the code can meet. All but \<open>KeyboardInterrupt\<close> are subclasses of
  Python's \<^verbatim>\<open>Exception\<close>; \<open>KeyboardInterrupt\<close> derives from \<^verbatim>\<open>BaseException\<close>
  only, so that \<^verbatim>\<open>except Exception\<close> does not catch it. \<open>ValueError\<close> is what
  \<^verbatim>\<open>signal.signal\<close> raises outside the main thread.
\<close>

datatype exn =
    ConnectionError
  | ReadTimeout
  | JSONDecodeError
  | AttributeError
  | OSError
  | TimeoutExpired
  | ValueError
  | KeyboardInterrupt

definition is_Exception :: "exn \<Rightarrow> bool" where
  "is_Exception e = (e \<noteq> KeyboardInterrupt)"

text \<open>
  A call returns a value, raises, is left by \<^verbatim>\<open>sys.exit(code)\<close>, or is still inside the
  monitoring loop when the fuel given to that loop is used up (\<open>Unfinished\<close>).
  \<open>Exit code\<close> is the \<^verbatim>\<open>SystemExit\<close> that \<^verbatim>\<open>sys.exit\<close> raises: it passes every
  \<^verbatim>\<open>except Exception\<close> and \<^verbatim>\<open>except KeyboardInterrupt\<close>, runs the \<^verbatim>\<open>finally\<close> blocks on
  its way and ends the process with that code.
\<close>

datatype 'a result = Return 'a | Raise exn | Exit int | Unfinished

subsection \<open>JSON values and HTTP responses\<close>

text \<open>
  What \<^verbatim>\<open>response.json()\<close> yields: a JSON value, an object being the association
  list of the parsed dictionary. A body that is not JSON is \<open>None\<close>.
\<close>

datatype json =
    JNull
  | JBool bool
  | JNum int
  | JStr string
  | JArr "json list"
  | JObj "(string \<times> json) list"

record response =
  status_code :: nat
  body :: "json option"

subsection \<open>The environment\<close>

text \<open>
  Each field answers the \<open>i\<close>-th request of its kind:
  \<^item> \<open>http_get i\<close>: the \<open>i\<close>-th \<^verbatim>\<open>requests.get\<close> raises or yields a response;
  \<^item> \<open>poll_live i\<close>: the \<open>i\<close>-th \<^verbatim>\<open>poll()\<close> of a handle whose exit status is not yet
    known raises, or tells whether the child has exited;
  \<^item> \<open>script_exists i\<close>: the \<open>i\<close>-th \<^verbatim>\<open>Path(...).exists()\<close>;
  \<^item> \<open>popen i\<close>: the \<open>i\<close>-th \<^verbatim>\<open>subprocess.Popen\<close> raises or spawns;
  \<^item> \<open>wait_live i\<close>: the \<open>i\<close>-th \<^verbatim>\<open>wait(timeout=10)\<close> on a handle whose exit status is
    not yet known sees the child exit in time, or not;
  \<^item> \<open>interrupted i\<close>: an interrupt signal arrives during the \<open>i\<close>-th \<^verbatim>\<open>time.sleep\<close>;
  \<^item> \<open>exited_unnoticed i\<close>: the \<open>i\<close>-th \<^verbatim>\<open>terminate()\<close> or \<^verbatim>\<open>kill()\<close> on a handle whose
    exit status is not yet known finds that the child has exited already;
  \<^item> \<open>signal_install i\<close>: the \<open>i\<close>-th \<^verbatim>\<open>signal.signal\<close> raises or installs the handler.
\<close>

record env =
  http_get :: "nat \<Rightarrow> exn + response"
  poll_live :: "nat \<Rightarrow> exn + bool"
  script_exists :: "nat \<Rightarrow> bool"
  popen :: "nat \<Rightarrow> exn option"
  wait_live :: "nat \<Rightarrow> bool"
  interrupted :: "nat \<Rightarrow> bool"
  exited_unnoticed :: "nat \<Rightarrow> bool"
  signal_install :: "nat \<Rightarrow> exn option"

subsection \<open>Observable effects\<close>

text \<open>
  The effects a run leaves behind, newest first: log lines, spawned children (with where
  their standard output and standard error go), children whose exit the handle has
  recorded, the calls made on a handle and the signals that really went out, probes and
  sleeps. \<^verbatim>\<open>Popen.terminate\<close> and \<^verbatim>\<open>Popen.kill\<close> send nothing to a child that has
  exited, hence the difference between \<open>Call_terminate\<close> and \<open>Sigterm\<close>.
\<close>

datatype stream_target = PIPE | Inherited

datatype event =
    Log string
  | Spawn nat stream_target stream_target
  | Reaped nat
  | Call_terminate nat
  | Sigterm nat
  | Call_wait nat
  | Call_kill nat
  | Sigkill nat
  | Probe
  | Sleep nat

subsection \<open>The state\<close>

text \<open>
  \<open>process\<close> and \<open>running\<close> are the two mutable fields of the manager
  (\<^verbatim>\<open>self.process\<close>, \<^verbatim>\<open>self.running\<close>); a handle is the number of the child it
  was spawned as. \<open>alive\<close> holds the children whose handle has no exit status yet
  (\<^verbatim>\<open>returncode is None\<close>): every child that is really running is among them.
  The counters say how many requests of each kind the environment has answered,
  \<open>clock\<close> the seconds slept. \<open>handled\<close> holds the signals for which \<^verbatim>\<open>run\<close> has
  installed its handler.
\<close>

datatype signal = SIGINT | SIGTERM

record state =
  process :: "nat option"
  running :: bool
  alive :: "nat set"
  next_pid :: nat
  probes :: nat
  polls :: nat
  lookups :: nat
  launches :: nat
  waits :: nat
  sleeps :: nat
  signals :: nat
  installs :: nat
  handled :: "signal set"
  clock :: nat
  log :: "event list"

definition init :: state where
  "init = \<lparr>process = None, running = False, alive = {}, next_pid = 0, probes = 0,
     polls = 0, lookups = 0, launches = 0, waits = 0, sleeps = 0, signals = 0, installs = 0,
     handled = {}, clock = 0, log = []\<rparr>"

definition emit :: "event \<Rightarrow> state \<Rightarrow> state" where
  "emit e s = s\<lparr>log := e # log s\<rparr>"

text \<open>\<^verbatim>\<open>self.log(message)\<close>; a message built with an f-string is kept up to its fixed part.\<close>

definition log_msg :: "string \<Rightarrow> state \<Rightarrow> state" where
  "log_msg m s = emit (Log m) s"

subsection \<open>Sequencing and exception handling\<close>

definition bind :: "'a result \<times> state \<Rightarrow> ('a \<Rightarrow> state \<Rightarrow> 'b result \<times> state) \<Rightarrow> 'b result \<times> state" where
  "bind m f =
     (case m of
        (Return a, s) \<Rightarrow> f a s
      | (Raise e, s) \<Rightarrow> (Raise e, s)
      | (Exit c, s) \<Rightarrow> (Exit c, s)
      | (Unfinished, s) \<Rightarrow> (Unfinished, s))"

text \<open>\<^verbatim>\<open>try: m  except Exception as e: h\<close>\<close>

definition except_Exception :: "'a result \<times> state \<Rightarrow> (exn \<Rightarrow> state \<Rightarrow> 'a result \<times> state) \<Rightarrow> 'a result \<times> state" where
  "except_Exception m h =
     (case m of
        (Raise e, s) \<Rightarrow> if is_Exception e then h e s else (Raise e, s)
      | r \<Rightarrow> r)"

text \<open>\<^verbatim>\<open>try: m  except subprocess.TimeoutExpired: h\<close>\<close>

definition except_TimeoutExpired :: "'a result \<times> state \<Rightarrow> (state \<Rightarrow> 'a result \<times> state) \<Rightarrow> 'a result \<times> state" where
  "except_TimeoutExpired m h =
     (case m of
        (Raise e, s) \<Rightarrow> if e = TimeoutExpired then h s else (Raise e, s)
      | r \<Rightarrow> r)"

definition lift :: "exn + 'a \<Rightarrow> state \<Rightarrow> 'a result \<times> state" where
  "lift x s = (case x of Inl e \<Rightarrow> (Raise e, s) | Inr a \<Rightarrow> (Return a, s))"

subsection \<open>The operations on a process handle and on the outside world\<close>

text \<open>
  \<^verbatim>\<open>handle.poll() is not None\<close>. A handle that holds an exit status answers from it;
  otherwise the environment tells whether the child has exited, and the handle records it.
\<close>

definition poll :: "env \<Rightarrow> nat \<Rightarrow> state \<Rightarrow> bool result \<times> state" where
  "poll env p s =
     (if p \<notin> alive s then (Return True, s)
      else
        let s1 = s\<lparr>polls := polls s + 1\<rparr> in
        case poll_live env (polls s) of
          Inl e \<Rightarrow> (Raise e, s1)
        | Inr False \<Rightarrow> (Return False, s1)
        | Inr True \<Rightarrow> (Return True, emit (Reaped p) (s1\<lparr>alive := alive s1 - {p}\<rparr>)))"

text \<open>
  \<^verbatim>\<open>handle.terminate()\<close>, that is \<^verbatim>\<open>send_signal(SIGTERM)\<close>: nothing is done on a handle
  that holds an exit status; otherwise the handle first looks whether the child has
  exited, and then records the exit and sends nothing, or else sends the signal.
\<close>

definition terminate :: "env \<Rightarrow> nat \<Rightarrow> state \<Rightarrow> unit result \<times> state" where
  "terminate env p s =
     (let s1 = emit (Call_terminate p) s in
      if p \<notin> alive s1 then (Return (), s1)
      else
        let s2 = s1\<lparr>signals := signals s1 + 1\<rparr> in
        if exited_unnoticed env (signals s1)
        then (Return (), emit (Reaped p) (s2\<lparr>alive := alive s2 - {p}\<rparr>))
        else (Return (), emit (Sigterm p) s2))"

text \<open>\<^verbatim>\<open>handle.kill()\<close>, that is \<^verbatim>\<open>send_signal(SIGKILL)\<close>, in the same way.\<close>

definition kill :: "env \<Rightarrow> nat \<Rightarrow> state \<Rightarrow> unit result \<times> state" where
  "kill env p s =
     (let s1 = emit (Call_kill p) s in
      if p \<notin> alive s1 then (Return (), s1)
      else
        let s2 = s1\<lparr>signals := signals s1 + 1\<rparr> in
        if exited_unnoticed env (signals s1)
        then (Return (), emit (Reaped p) (s2\<lparr>alive := alive s2 - {p}\<rparr>))
        else (Return (), emit (Sigkill p) s2))"

text \<open>
  \<^verbatim>\<open>handle.wait(timeout=10)\<close>: returns at once on a handle that holds an exit status;
  otherwise the child exits in time and is recorded, or \<open>TimeoutExpired\<close> is raised.
\<close>

definition wait_timeout :: "env \<Rightarrow> nat \<Rightarrow> state \<Rightarrow> unit result \<times> state" where
  "wait_timeout env p s =
     (let s1 = emit (Call_wait p) s in
      if p \<notin> alive s1 then (Return (), s1)
      else
        let s2 = s1\<lparr>waits := waits s1 + 1\<rparr> in
        if wait_live env (waits s1)
        then (Return (), emit (Reaped p) (s2\<lparr>alive := alive s2 - {p}\<rparr>))
        else (Raise TimeoutExpired, s2))"

text \<open>\<^verbatim>\<open>handle.wait()\<close> after \<^verbatim>\<open>kill()\<close>: the killed child exits and is recorded.\<close>

definition wait :: "nat \<Rightarrow> state \<Rightarrow> unit result \<times> state" where
  "wait p s =
     (let s1 = emit (Call_wait p) s in
      (Return (), if p \<in> alive s1 then emit (Reaped p) (s1\<lparr>alive := alive s1 - {p}\<rparr>) else s1))"

subsection \<open>\<^verbatim>\<open>shutdown\<close> and the signal handler\<close>

text \<open>The method \<^verbatim>\<open>shutdown\<close>.\<close>

definition shutdown :: "env \<Rightarrow> state \<Rightarrow> unit result \<times> state" where
  "shutdown env s =
     (let s1 = s\<lparr>running := False\<rparr> in
      case process s1 of
        None \<Rightarrow> (Return (), s1)
      | Some p \<Rightarrow>
          bind (terminate env p (log_msg ''Shutting down service...'' s1)) (\<lambda>_ s2.
            bind (except_TimeoutExpired (wait_timeout env p s2)
                    (\<lambda>s3. bind (kill env p s3) (\<lambda>_ s4. wait p s4))) (\<lambda>_ s5.
              (Return (), log_msg ''Service shutdown complete'' s5))))"

text \<open>
  The handler that \<^verbatim>\<open>run\<close> installs for SIGINT and SIGTERM:
  \<^verbatim>\<open>self.log(...); self.shutdown(); sys.exit(0)\<close>.
\<close>

definition signal_handler :: "env \<Rightarrow> state \<Rightarrow> unit result \<times> state" where
  "signal_handler env s =
     bind (shutdown env (log_msg ''Received signal '' s)) (\<lambda>_ s1. (Exit 0, s1))"

text \<open>
  \<^verbatim>\<open>signal.signal(sig, signal_handler)\<close>: raises (\<open>ValueError\<close> outside the main
  thread), or installs the handler for that signal.
\<close>

definition signal_signal :: "env \<Rightarrow> signal \<Rightarrow> state \<Rightarrow> unit result \<times> state" where
  "signal_signal env sig s =
     (let s1 = s\<lparr>installs := installs s + 1\<rparr> in
      case signal_install env (installs s) of
        Some e \<Rightarrow> (Raise e, s1)
      | None \<Rightarrow> (Return (), s1\<lparr>handled := insert sig (handled s1)\<rparr>))"

subsection \<open>Sleeping and the remaining operations\<close>

text \<open>
  \<^verbatim>\<open>time.sleep(n)\<close>: raises no \<^verbatim>\<open>Exception\<close> for the constants the code passes. An
  interrupt signal that arrives during the sleep raises \<open>KeyboardInterrupt\<close> as long as
  Python's default handler is in place, and runs the installed handler once \<^verbatim>\<open>run\<close> has
  replaced it. A handled SIGTERM takes the same path as a handled SIGINT.
\<close>

definition sleep :: "env \<Rightarrow> nat \<Rightarrow> state \<Rightarrow> unit result \<times> state" where
  "sleep env n s =
     (let s1 = s\<lparr>sleeps := sleeps s + 1\<rparr> in
      if interrupted env (sleeps s) then
        if SIGINT \<in> handled s1 then signal_handler env s1 else (Raise KeyboardInterrupt, s1)
      else (Return (), emit (Sleep n) (s1\<lparr>clock := clock s1 + n\<rparr>)))"

text \<open>\<^verbatim>\<open>Path(self.service_script).exists()\<close>\<close>

definition path_exists :: "env \<Rightarrow> state \<Rightarrow> bool result \<times> state" where
  "path_exists env s = (Return (script_exists env (lookups s)), s\<lparr>lookups := lookups s + 1\<rparr>)"

text \<open>
  \<^verbatim>\<open>subprocess.Popen(argv, stdout=out, stderr=err, ...)\<close>: raises, or spawns a child
  with a fresh handle.
\<close>

definition Popen :: "env \<Rightarrow> stream_target \<Rightarrow> stream_target \<Rightarrow> state \<Rightarrow> nat result \<times> state" where
  "Popen env out err s =
     (let s1 = s\<lparr>launches := launches s + 1\<rparr> in
      case popen env (launches s) of
        Some e \<Rightarrow> (Raise e, s1)
      | None \<Rightarrow>
          (Return (next_pid s1),
           emit (Spawn (next_pid s1) out err)
             (s1\<lparr>next_pid := next_pid s1 + 1, alive := insert (next_pid s1) (alive s1)\<rparr>)))"

text \<open>\<^verbatim>\<open>requests.get(self.health_endpoint, timeout=5)\<close>\<close>

definition requests_get :: "env \<Rightarrow> state \<Rightarrow> response result \<times> state" where
  "requests_get env s =
     (let s1 = emit Probe (s\<lparr>probes := probes s + 1\<rparr>) in
      case http_get env (probes s) of
        Inl e \<Rightarrow> (Raise e, s1)
      | Inr r \<Rightarrow> (Return r, s1))"

text \<open>\<^verbatim>\<open>response.json()\<close>: raises on a body that is not JSON.\<close>

definition response_json :: "response \<Rightarrow> exn + json" where
  "response_json r = (case body r of None \<Rightarrow> Inl JSONDecodeError | Some j \<Rightarrow> Inr j)"

text \<open>
  \<^verbatim>\<open>data.get(key)\<close>: the value or \<^verbatim>\<open>None\<close> on a dictionary; any other JSON value
  (list, string, number, boolean, null) has no attribute \<^verbatim>\<open>get\<close>.
\<close>

definition json_get :: "json \<Rightarrow> string \<Rightarrow> exn + json option" where
  "json_get j k = (case j of JObj kvs \<Rightarrow> Inr (map_of kvs k) | _ \<Rightarrow> Inl AttributeError)"

subsection \<open>\<^verbatim>\<open>check_health\<close>\<close>

definition check_health_try :: "env \<Rightarrow> state \<Rightarrow> bool result \<times> state" where
  "check_health_try env s =
     bind (requests_get env s) (\<lambda>response s1.
       if status_code response = 200 then
         bind (lift (response_json response) s1) (\<lambda>data s2.
           bind (lift (json_get data ''status'') s2) (\<lambda>v s3.
             (Return (v = Some (JStr ''healthy'')), s3)))
       else (Return False, s1))"

definition check_health :: "env \<Rightarrow> state \<Rightarrow> bool result \<times> state" where
  "check_health env s = except_Exception (check_health_try env s) (\<lambda>e s1. (Return False, s1))"

subsection \<open>\<^verbatim>\<open>start_service\<close>\<close>

text \<open>\<^verbatim>\<open>self.process and self.process.poll() is None\<close>\<close>

definition process_is_live :: "env \<Rightarrow> state \<Rightarrow> bool result \<times> state" where
  "process_is_live env s =
     (case process s of
        None \<Rightarrow> (Return False, s)
      | Some p \<Rightarrow> bind (poll env p s) (\<lambda>exited s1. (Return (\<not> exited), s1)))"

text \<open>\<^verbatim>\<open>self.process and self.process.poll() is not None\<close>\<close>

definition process_has_exited :: "env \<Rightarrow> state \<Rightarrow> bool result \<times> state" where
  "process_has_exited env s =
     (case process s of
        None \<Rightarrow> (Return False, s)
      | Some p \<Rightarrow> poll env p s)"

definition start_service_try :: "env \<Rightarrow> state \<Rightarrow> bool result \<times> state" where
  "start_service_try env s =
     bind (process_is_live env s) (\<lambda>live s1.
       if live then (Return True, log_msg ''Service already running'' s1)
       else
         bind (path_exists env (log_msg ''Starting Python ML service...'' s1)) (\<lambda>found s2.
           if \<not> found then (Return False, log_msg ''ERROR: Service script not found: '' s2)
           else
             bind (Popen env PIPE PIPE s2) (\<lambda>p s3.
               (Return True, log_msg ''Service started with PID: '' (s3\<lparr>process := Some p\<rparr>)))))"

definition start_service :: "env \<Rightarrow> state \<Rightarrow> bool result \<times> state" where
  "start_service env s =
     except_Exception (start_service_try env s)
       (\<lambda>e s1. (Return False, log_msg ''Failed to start service: '' s1))"

subsection \<open>\<^verbatim>\<open>wait_for_startup\<close>\<close>

text \<open>
  The body of \<^verbatim>\<open>for i in range(max_wait)\<close> followed by the code after the loop; the
  first argument counts the iterations left.
\<close>

fun wait_loop :: "env \<Rightarrow> nat \<Rightarrow> state \<Rightarrow> bool result \<times> state" where
  "wait_loop env 0 s = (Return False, log_msg ''Service failed to start within timeout'' s)"
| "wait_loop env (Suc n) s =
     bind (check_health env s) (\<lambda>healthy s1.
       if healthy then (Return True, log_msg ''Service is healthy and ready!'' s1)
       else
         bind (process_has_exited env s1) (\<lambda>exited s2.
           if exited then (Return False, log_msg ''Service process died during startup'' s2)
           else bind (sleep env 1 s2) (\<lambda>_ s3. wait_loop env n s3)))"

definition wait_for_startup :: "env \<Rightarrow> nat \<Rightarrow> state \<Rightarrow> bool result \<times> state" where
  "wait_for_startup env max_wait s =
     wait_loop env max_wait (log_msg ''Waiting for service to be ready...'' s)"

subsection \<open>\<^verbatim>\<open>monitor_service\<close>\<close>

datatype loop_ctl = Break | Next

text \<open>The body of the \<^verbatim>\<open>try\<close> inside the \<^verbatim>\<open>while\<close> loop.\<close>

definition monitor_try :: "env \<Rightarrow> state \<Rightarrow> loop_ctl result \<times> state" where
  "monitor_try env s =
     bind (process_has_exited env s) (\<lambda>exited s1.
       if exited then
         bind (start_service env (log_msg ''Service process died, restarting...'' s1)) (\<lambda>_ s2.
           bind (wait_for_startup env 30 s2) (\<lambda>ready s3.
             if \<not> ready then (Return Break, log_msg ''Failed to restart service'' s3)
             else bind (sleep env 10 s3) (\<lambda>_ s4. (Return Next, s4))))
       else
         bind (check_health env s1) (\<lambda>healthy s2.
           if \<not> healthy then
             bind (case process s2 of
                     None \<Rightarrow> (Return (), log_msg ''Service health check failed, restarting...'' s2)
                   | Some p \<Rightarrow>
                       bind (terminate env p (log_msg ''Service health check failed, restarting...'' s2))
                         (\<lambda>_ s3. sleep env 2 s3)) (\<lambda>_ s4.
               bind (start_service env s4) (\<lambda>_ s5.
                 bind (wait_for_startup env 30 s5) (\<lambda>ready s6.
                   if \<not> ready then (Return Break, log_msg ''Failed to restart service'' s6)
                   else bind (sleep env 10 s6) (\<lambda>_ s7. (Return Next, s7)))))
           else bind (sleep env 10 s2) (\<lambda>_ s3. (Return Next, s3))))"

text \<open>
  The \<^verbatim>\<open>while self.running\<close> loop with its two handlers. The loop may run forever, so
  it is given fuel: the number of iterations it may start.
\<close>

fun monitor_loop :: "env \<Rightarrow> nat \<Rightarrow> state \<Rightarrow> unit result \<times> state" where
  "monitor_loop env 0 s = (if running s then (Unfinished, s) else (Return (), s))"
| "monitor_loop env (Suc n) s =
     (if \<not> running s then (Return (), s)
      else
        case monitor_try env s of
          (Return Break, s1) \<Rightarrow> (Return (), s1)
        | (Return Next, s1) \<Rightarrow> monitor_loop env n s1
        | (Raise e, s1) \<Rightarrow>
            if e = KeyboardInterrupt then (Return (), log_msg ''Received interrupt signal'' s1)
            else if is_Exception e then
              bind (sleep env 5 (log_msg ''Monitor error: '' s1)) (\<lambda>_ s2. monitor_loop env n s2)
            else (Raise e, s1)
        | (Exit c, s1) \<Rightarrow> (Exit c, s1)
        | (Unfinished, s1) \<Rightarrow> (Unfinished, s1))"

definition monitor_service :: "env \<Rightarrow> nat \<Rightarrow> state \<Rightarrow> unit result \<times> state" where
  "monitor_service env fuel s = monitor_loop env fuel (log_msg ''Starting service monitoring...'' s)"

subsection \<open>\<^verbatim>\<open>run\<close> and the entry point\<close>

text \<open>
  The \<^verbatim>\<open>try\<close> block of \<^verbatim>\<open>run\<close>: \<open>Some False\<close> is the early \<^verbatim>\<open>return False\<close>,
  \<open>None\<close> is falling off the end of the block.
\<close>

definition run_try :: "env \<Rightarrow> nat \<Rightarrow> state \<Rightarrow> bool option result \<times> state" where
  "run_try env fuel s =
     bind (start_service env s) (\<lambda>started s1.
       if \<not> started then (Return (Some False), log_msg ''Failed to start service'' s1)
       else
         bind (wait_for_startup env 30 s1) (\<lambda>ready s2.
           if \<not> ready then (Return (Some False), log_msg ''Service failed to become ready'' s2)
           else
             bind (monitor_service env fuel
                     (log_msg ''Press Ctrl+C to stop''
                       (log_msg ''Health endpoint: ''
                         (log_msg ''Service is running and healthy'' s2)))) (\<lambda>_ s3.
               (Return None, s3))))"

text \<open>
  \<^verbatim>\<open>try: ... except Exception: log  finally: self.shutdown()\<close> and the final
  \<^verbatim>\<open>return True\<close>. The \<^verbatim>\<open>finally\<close> block runs on every way out of the \<^verbatim>\<open>try\<close> block;
  an exception it raises replaces the pending outcome, otherwise a pending
  \<^verbatim>\<open>return False\<close>, a pending exception or a pending \<^verbatim>\<open>sys.exit\<close> goes on.
\<close>

definition run_finally :: "env \<Rightarrow> nat \<Rightarrow> state \<Rightarrow> bool result \<times> state" where
  "run_finally env fuel s =
     (case except_Exception (run_try env fuel s)
             (\<lambda>e s1. (Return None, log_msg ''Service manager error: '' s1)) of
        (Unfinished, s1) \<Rightarrow> (Unfinished, s1)
      | (Return early, s1) \<Rightarrow>
          bind (shutdown env s1) (\<lambda>_ s2.
            case early of Some b \<Rightarrow> (Return b, s2) | None \<Rightarrow> (Return True, s2))
      | (Raise e, s1) \<Rightarrow> bind (shutdown env s1) (\<lambda>_ s2. (Raise e, s2))
      | (Exit c, s1) \<Rightarrow> bind (shutdown env s1) (\<lambda>_ s2. (Exit c, s2)))"

text \<open>
  The method \<^verbatim>\<open>run\<close>: it sets \<^verbatim>\<open>self.running\<close>, installs the handler for SIGINT and
  for SIGTERM, and only then enters the \<^verbatim>\<open>try\<close> block.
\<close>

definition run :: "env \<Rightarrow> nat \<Rightarrow> state \<Rightarrow> bool result \<times> state" where
  "run env fuel s =
     bind (signal_signal env SIGINT (s\<lparr>running := True\<rparr>)) (\<lambda>_ s1.
       bind (signal_signal env SIGTERM s1) (\<lambda>_ s2.
         run_finally env fuel s2))"

text \<open>\<^verbatim>\<open>0 if success else 1\<close>\<close>

definition exit_code :: "bool \<Rightarrow> int" where
  "exit_code success = (if success then 0 else 1)"

text \<open>
  The entry point: \<^verbatim>\<open>success = manager.run(); sys.exit(0 if success else 1)\<close> on a new
  manager.
\<close>

definition main :: "env \<Rightarrow> nat \<Rightarrow> unit result \<times> state" where
  "main env fuel = bind (run env fuel init) (\<lambda>success s. (Exit (exit_code success), s))"

subsection \<open>Notions used to state the properties\<close>

text \<open>
  The answer to a probe counts as healthy when the request succeeds with status 200 and
  the JSON object it carries maps \<^verbatim>\<open>status\<close> to the string \<^verbatim>\<open>healthy\<close>.
\<close>

definition healthy_reply :: "exn + response \<Rightarrow> bool" where
  "healthy_reply x =
     (case x of
        Inl e \<Rightarrow> False
      | Inr r \<Rightarrow>
          status_code r = 200 \<and>
          (case body r of
             Some (JObj kvs) \<Rightarrow> map_of kvs ''status'' = Some (JStr ''healthy'')
           | _ \<Rightarrow> False))"

text \<open>An unhealthy answer: not healthy, and the probe was not cut short by an interrupt.\<close>

definition unhealthy_reply :: "exn + response \<Rightarrow> bool" where
  "unhealthy_reply x = (\<not> healthy_reply x \<and> x \<noteq> Inl KeyboardInterrupt)"

text \<open>
  The next \<open>k\<close> rounds of waiting are idle: the probe is unhealthy, the child is still
  running when polled, and the sleep is not interrupted.
\<close>

definition idle_rounds :: "env \<Rightarrow> state \<Rightarrow> nat \<Rightarrow> bool" where
  "idle_rounds env s k =
     (\<forall>i<k. unhealthy_reply (http_get env (probes s + i)) \<and>
            poll_live env (polls s + i) = Inr False \<and>
            \<not> interrupted env (sleeps s + i))"

text \<open>
  The children that are live after a history of events (newest first): spawned and not
  yet recorded as exited. A child is counted live until its handle records the exit, so
  the set holds every child that is really running.
\<close>

fun live :: "event list \<Rightarrow> nat set" where
  "live [] = {}"
| "live (Spawn p out err # es) = insert p (live es)"
| "live (Reaped p # es) = live es - {p}"
| "live (e # es) = live es"

text \<open>At every moment of the history at most one child was live.\<close>

fun at_most_one_live :: "event list \<Rightarrow> bool" where
  "at_most_one_live [] = True"
| "at_most_one_live (e # es) = (card (live (e # es)) \<le> 1 \<and> at_most_one_live es)"

text \<open>
  The manager's view agrees with the history: the handles without exit status are the
  live children, each of them is the owned handle, and at most one child was live at
  every moment so far.
\<close>

definition owned_only :: "state \<Rightarrow> bool" where
  "owned_only s =
     (live (log s) = alive s \<and> (\<forall>p \<in> alive s. process s = Some p) \<and> at_most_one_live (log s))"

text \<open>How often a line was logged.\<close>

definition count_log :: "string \<Rightarrow> state \<Rightarrow> nat" where
  "count_log m s = length (filter (\<lambda>e. e = Log m) (log s))"

text \<open>The events a call added to the log.\<close>

definition added :: "state \<Rightarrow> state \<Rightarrow> event list" where
  "added s s' = take (length (log s') - length (log s)) (log s')"

subsection \<open>Concrete scenarios\<close>

definition healthy_response :: response where
  "healthy_response = \<lparr>status_code = 200, body = Some (JObj [(''status'', JStr ''healthy'')])\<rparr>"

text \<open>A world in which nothing goes wrong: the script exists, the child starts, stays up
  and answers every probe as healthy.\<close>

definition calm :: env where
  "calm = \<lparr>http_get = (\<lambda>i. Inr healthy_response), poll_live = (\<lambda>i. Inr False),
     script_exists = (\<lambda>i. True), popen = (\<lambda>i. None), wait_live = (\<lambda>i. True),
     interrupted = (\<lambda>i. False), exited_unnoticed = (\<lambda>i. False),
     signal_install = (\<lambda>i. None)\<rparr>"

text \<open>A world in which the child answers its probes but has exited whenever it is polled.\<close>

definition crashing :: env where
  "crashing = calm\<lparr>poll_live := \<lambda>i. Inr True\<rparr>"

text \<open>
  A world in which the first start succeeds and the child is healthy at first; then the
  child exits, the script is gone and nothing listens on the health endpoint any more.
\<close>

definition restart_fails :: env where
  "restart_fails = calm\<lparr>http_get := \<lambda>i. if i = 0 then Inr healthy_response else Inl ConnectionError,
     poll_live := \<lambda>i. Inr True, script_exists := \<lambda>i. i = 0\<rparr>"

text \<open>A world in which \<^verbatim>\<open>run\<close> is not called on the main thread.\<close>

definition off_main_thread :: env where
  "off_main_thread = calm\<lparr>signal_install := \<lambda>i. Some ValueError\<rparr>"

text \<open>A world in which an interrupt signal arrives during the first sleep.\<close>

definition interrupting :: env where
  "interrupting = calm\<lparr>interrupted := \<lambda>i. i = 0\<rparr>"

text \<open>
  A world in which the child starts, never answers a probe, and polling its handle raises.
\<close>

definition never_healthy :: env where
  "never_healthy = calm\<lparr>http_get := \<lambda>i. Inl ConnectionError, poll_live := \<lambda>i. Inl OSError\<rparr>"

text \<open>A world in which the child starts but never answers a probe.\<close>

definition never_ready :: env where
  "never_ready = calm\<lparr>http_get := \<lambda>i. Inl ConnectionError\<rparr>"

text \<open>A manager that owns the running child \<open>0\<close>.\<close>

definition owning :: state where
  "owning = init\<lparr>process := Some 0, running := True, alive := {0}, next_pid := 1,
     log := [Spawn 0 PIPE PIPE]\<rparr>"

section \<open>Properties\<close>

subsection \<open>Sequencing\<close>

lemma bind_Return [simp]: "bind (Return a, s) f = f a s"
  by (simp add: bind_def)

lemma bind_Raise [simp]: "bind (Raise e, s) f = (Raise e, s)"
  by (simp add: bind_def)

lemma bind_Exit [simp]: "bind (Exit c, s) f = (Exit c, s)"
  by (simp add: bind_def)

lemma bind_Unfinished [simp]: "bind (Unfinished, s) f = (Unfinished, s)"
  by (simp add: bind_def)

subsection \<open>The health probe\<close>

lemma check_health_reply:
  "http_get env (probes s) \<noteq> Inl KeyboardInterrupt \<Longrightarrow>
   check_health env s =
     (Return (healthy_reply (http_get env (probes s))), emit Probe (s\<lparr>probes := probes s + 1\<rparr>))"
  by (auto simp: check_health_def check_health_try_def requests_get_def except_Exception_def
      lift_def response_json_def json_get_def healthy_reply_def is_Exception_def Let_def
      split: sum.splits option.splits json.splits)

lemma check_health_interrupt:
  "http_get env (probes s) = Inl KeyboardInterrupt \<Longrightarrow>
   check_health env s = (Raise KeyboardInterrupt, emit Probe (s\<lparr>probes := probes s + 1\<rparr>))"
  by (simp add: check_health_def check_health_try_def requests_get_def except_Exception_def
      is_Exception_def Let_def)

text \<open>
  Claim C3. Whenever the request ends in a response or in an error that is an
  \<^verbatim>\<open>Exception\<close> (connection error, timeout, ...), \<open>check_health\<close> returns a boolean and
  raises nothing; the boolean is true exactly when the request yielded a response with
  status code 200 whose JSON body is an object with \<^verbatim>\<open>status\<close> equal to the string
  \<^verbatim>\<open>healthy\<close>. Every other outcome (an error, another status code, a body that is
  not JSON, another status value) gives false.
\<close>

theorem check_health_iff:
  assumes "\<forall>e. http_get env (probes s) = Inl e \<longrightarrow> is_Exception e"
  shows "fst (check_health env s) =
     Return (\<exists>r kvs. http_get env (probes s) = Inr r \<and> status_code r = 200 \<and>
               body r = Some (JObj kvs) \<and> map_of kvs ''status'' = Some (JStr ''healthy''))"
proof -
  have "http_get env (probes s) \<noteq> Inl KeyboardInterrupt"
    using assms by (auto simp: is_Exception_def)
  then have "fst (check_health env s) = Return (healthy_reply (http_get env (probes s)))"
    by (simp add: check_health_reply)
  moreover have "healthy_reply (http_get env (probes s)) =
     (\<exists>r kvs. http_get env (probes s) = Inr r \<and> status_code r = 200 \<and>
               body r = Some (JObj kvs) \<and> map_of kvs ''status'' = Some (JStr ''healthy''))"
    by (auto simp: healthy_reply_def split: sum.splits option.splits json.splits)
  ultimately show ?thesis by simp
qed

theorem check_health_iff_witness:
  "http_get calm (probes init) = Inr healthy_response \<and>
   fst (check_health calm init) = Return True \<and>
   fst (check_health (calm\<lparr>http_get := \<lambda>i. Inl ConnectionError\<rparr>) init) = Return False \<and>
   fst (check_health (calm\<lparr>http_get := \<lambda>i. Inr \<lparr>status_code = 500, body = None\<rparr>\<rparr>) init) = Return False"
  using check_health_iff [of calm init]
    check_health_iff [of "calm\<lparr>http_get := \<lambda>i. Inl ConnectionError\<rparr>" init]
    check_health_iff [of "calm\<lparr>http_get := \<lambda>i. Inr \<lparr>status_code = 500, body = None\<rparr>\<rparr>" init]
  by (simp add: calm_def init_def healthy_response_def is_Exception_def)

text \<open>
  Claim C10. For a response with status code 200 whose JSON body is anything but an
  object mapping \<^verbatim>\<open>status\<close> to \<^verbatim>\<open>healthy\<close>, \<open>check_health\<close> returns false. When the
  body is an object without the key, the lookup itself raises nothing (the \<^verbatim>\<open>try\<close>
  block already returns false); when the body is not an object, the error of the
  lookup is caught.
\<close>

theorem check_health_no_lookup_error:
  assumes "http_get env (probes s) = Inr r" and "status_code r = 200" and "body r = Some j"
    and "\<not> (\<exists>kvs. j = JObj kvs \<and> map_of kvs ''status'' = Some (JStr ''healthy''))"
  shows "fst (check_health env s) = Return False \<and>
         (\<forall>kvs. j = JObj kvs \<longrightarrow> fst (check_health_try env s) = Return False)"
  using assms
  by (auto simp: check_health_def check_health_try_def requests_get_def except_Exception_def
      lift_def response_json_def json_get_def is_Exception_def Let_def
      split: sum.splits option.splits json.splits)

theorem check_health_no_lookup_error_witness:
  "fst (check_health (calm\<lparr>http_get := \<lambda>i. Inr \<lparr>status_code = 200, body = Some (JObj [(''service'', JStr ''x'')])\<rparr>\<rparr>) init) = Return False \<and>
   fst (check_health_try (calm\<lparr>http_get := \<lambda>i. Inr \<lparr>status_code = 200, body = Some (JObj [(''service'', JStr ''x'')])\<rparr>\<rparr>) init) = Return False \<and>
   fst (check_health (calm\<lparr>http_get := \<lambda>i. Inr \<lparr>status_code = 200, body = Some (JArr [JStr ''healthy''])\<rparr>\<rparr>) init) = Return False"
  using check_health_no_lookup_error [of "calm\<lparr>http_get := \<lambda>i. Inr \<lparr>status_code = 200, body = Some (JObj [(''service'', JStr ''x'')])\<rparr>\<rparr>" init
       "\<lparr>status_code = 200, body = Some (JObj [(''service'', JStr ''x'')])\<rparr>" "JObj [(''service'', JStr ''x'')]"]
    check_health_no_lookup_error [of "calm\<lparr>http_get := \<lambda>i. Inr \<lparr>status_code = 200, body = Some (JArr [JStr ''healthy''])\<rparr>\<rparr>" init
       "\<lparr>status_code = 200, body = Some (JArr [JStr ''healthy''])\<rparr>" "JArr [JStr ''healthy'']"]
  by (simp add: calm_def init_def)

subsection \<open>Starting the child\<close>

lemmas start_service_defs =
  start_service_def start_service_try_def process_is_live_def poll_def path_exists_def
  Popen_def except_Exception_def log_msg_def emit_def Let_def

text \<open>
  Claim C8. \<open>start_service\<close>:
  \<^item> when the owned handle is polled as still running, it returns true at once; nothing is
    looked up or spawned and the state changes by the poll and one log line only;
  \<^item> when there is no handle or the handle has an exit status, and the script is missing,
    it returns false and spawns nothing;
  \<^item> when the script exists and the spawn raises an \<^verbatim>\<open>Exception\<close>, it returns false,
    no child is added and the handle is left as it was;
  \<^item> otherwise it spawns a child with standard output and standard error piped, owns the
    new handle and returns true;
  \<^item> it never raises an \<^verbatim>\<open>Exception\<close> to its caller.
\<close>

theorem start_service_outcomes:
  "(process s = Some p \<and> p \<in> alive s \<and> poll_live env (polls s) = Inr False \<longrightarrow>
      start_service env s =
        (Return True, log_msg ''Service already running'' (s\<lparr>polls := polls s + 1\<rparr>))) \<and>
   ((process s = None \<or> (process s = Some p \<and> (p \<notin> alive s \<or> poll_live env (polls s) = Inr True))) \<longrightarrow>
      (\<not> script_exists env (lookups s) \<longrightarrow>
         fst (start_service env s) = Return False \<and>
         launches (snd (start_service env s)) = launches s \<and>
         next_pid (snd (start_service env s)) = next_pid s \<and>
         process (snd (start_service env s)) = process s) \<and>
      (script_exists env (lookups s) \<and> popen env (launches s) = Some e \<and> is_Exception e \<longrightarrow>
         fst (start_service env s) = Return False \<and>
         next_pid (snd (start_service env s)) = next_pid s \<and>
         alive (snd (start_service env s)) \<subseteq> alive s \<and>
         process (snd (start_service env s)) = process s) \<and>
      (script_exists env (lookups s) \<and> popen env (launches s) = None \<longrightarrow>
         fst (start_service env s) = Return True \<and>
         process (snd (start_service env s)) = Some (next_pid s) \<and>
         next_pid s \<in> alive (snd (start_service env s)) \<and>
         take 2 (log (snd (start_service env s))) =
           [Log ''Service started with PID: '', Spawn (next_pid s) PIPE PIPE])) \<and>
   (\<forall>x. fst (start_service env s) = Raise x \<longrightarrow> \<not> is_Exception x)"
  by (auto simp: start_service_defs split: sum.splits option.splits bool.splits)

theorem start_service_outcomes_witness:
  "fst (start_service calm owning) = Return True \<and>
   next_pid (snd (start_service calm owning)) = next_pid owning \<and>
   fst (start_service (calm\<lparr>script_exists := \<lambda>i. False\<rparr>) init) = Return False \<and>
   fst (start_service (calm\<lparr>popen := \<lambda>i. Some OSError\<rparr>) init) = Return False \<and>
   fst (start_service calm init) = Return True \<and>
   process (snd (start_service calm init)) = Some 0 \<and>
   take 2 (log (snd (start_service calm init))) = [Log ''Service started with PID: '', Spawn 0 PIPE PIPE]"
  using start_service_outcomes [of owning 0 calm OSError]
    start_service_outcomes [of init 0 "calm\<lparr>script_exists := \<lambda>i. False\<rparr>" OSError]
    start_service_outcomes [of init 0 "calm\<lparr>popen := \<lambda>i. Some OSError\<rparr>" OSError]
    start_service_outcomes [of init 0 calm OSError]
  by (simp add: calm_def init_def owning_def is_Exception_def log_msg_def emit_def)

subsection \<open>Waiting for the child to become ready\<close>

lemma wait_loop_idle_step:
  assumes "process s = Some p" and "p \<in> alive s"
    and "unhealthy_reply (http_get env (probes s))"
    and "poll_live env (polls s) = Inr False" and "\<not> interrupted env (sleeps s)"
  shows "wait_loop env (Suc n) s =
     wait_loop env n (s\<lparr>probes := probes s + 1, polls := polls s + 1, sleeps := sleeps s + 1,
        clock := clock s + 1, log := Sleep 1 # Probe # log s\<rparr>)"
  using assms
  by (simp add: check_health_reply unhealthy_reply_def process_has_exited_def poll_def
      sleep_def emit_def Let_def)

lemma wait_loop_healthy_step:
  assumes "healthy_reply (http_get env (probes s))"
  shows "wait_loop env (Suc n) s =
     (Return True, log_msg ''Service is healthy and ready!'' (emit Probe (s\<lparr>probes := probes s + 1\<rparr>)))"
proof -
  have "http_get env (probes s) \<noteq> Inl KeyboardInterrupt"
    using assms by (auto simp: healthy_reply_def)
  then show ?thesis using assms by (simp add: check_health_reply)
qed

lemma wait_loop_died_step:
  assumes "process s = Some p" and "unhealthy_reply (http_get env (probes s))"
    and "p \<notin> alive s \<or> poll_live env (polls s) = Inr True"
  shows "fst (wait_loop env (Suc n) s) = Return False \<and>
     probes (snd (wait_loop env (Suc n) s)) = probes s + 1 \<and>
     clock (snd (wait_loop env (Suc n) s)) = clock s \<and>
     sleeps (snd (wait_loop env (Suc n) s)) = sleeps s \<and>
     p \<notin> alive (snd (wait_loop env (Suc n) s)) \<and>
     hd (log (snd (wait_loop env (Suc n) s))) = Log ''Service process died during startup''"
  using assms
  by (auto simp: check_health_reply unhealthy_reply_def process_has_exited_def poll_def
      emit_def log_msg_def Let_def)

lemma wait_loop_healthy:
  assumes "process s = Some p" and "p \<in> alive s"
    and "\<forall>i<k. unhealthy_reply (http_get env (probes s + i)) \<and>
           poll_live env (polls s + i) = Inr False \<and> \<not> interrupted env (sleeps s + i)"
    and "healthy_reply (http_get env (probes s + k))" and "k < n"
  shows "fst (wait_loop env n s) = Return True \<and>
     probes (snd (wait_loop env n s)) = probes s + k + 1 \<and>
     clock (snd (wait_loop env n s)) = clock s + k"
  using assms
proof (induction k arbitrary: s n)
  case 0
  then obtain m where "n = Suc m" by (cases n) auto
  with 0 show ?case by (simp add: wait_loop_healthy_step log_msg_def emit_def del: wait_loop.simps)
next
  case (Suc k)
  then obtain m where n: "n = Suc m" and m: "k < m" by (cases n) auto
  let ?s = "s\<lparr>probes := probes s + 1, polls := polls s + 1, sleeps := sleeps s + 1,
        clock := clock s + 1, log := Sleep 1 # Probe # log s\<rparr>"
  have first: "unhealthy_reply (http_get env (probes s))" "poll_live env (polls s) = Inr False"
      "\<not> interrupted env (sleeps s)"
    using Suc.prems(3) by (auto dest: spec [of _ 0])
  have step: "wait_loop env n s = wait_loop env m ?s"
    unfolding n using Suc.prems(1,2) first by (rule wait_loop_idle_step)
  have rest: "\<forall>i<k. unhealthy_reply (http_get env (probes ?s + i)) \<and>
           poll_live env (polls ?s + i) = Inr False \<and> \<not> interrupted env (sleeps ?s + i)"
    using Suc.prems(3) by (auto dest: spec [of _ "Suc _"])
  have "fst (wait_loop env m ?s) = Return True \<and>
     probes (snd (wait_loop env m ?s)) = probes ?s + k + 1 \<and>
     clock (snd (wait_loop env m ?s)) = clock ?s + k"
    using Suc.prems(1,2,4) rest m by (intro Suc.IH) simp_all
  then show ?case by (simp add: step del: wait_loop.simps)
qed

lemma wait_loop_died:
  assumes "process s = Some p" and "p \<in> alive s"
    and "\<forall>i<k. unhealthy_reply (http_get env (probes s + i)) \<and>
           poll_live env (polls s + i) = Inr False \<and> \<not> interrupted env (sleeps s + i)"
    and "unhealthy_reply (http_get env (probes s + k))"
    and "poll_live env (polls s + k) = Inr True" and "k < n"
  shows "fst (wait_loop env n s) = Return False \<and>
     probes (snd (wait_loop env n s)) = probes s + k + 1 \<and>
     clock (snd (wait_loop env n s)) = clock s + k \<and>
     hd (log (snd (wait_loop env n s))) = Log ''Service process died during startup''"
  using assms
proof (induction k arbitrary: s n)
  case 0
  then obtain m where "n = Suc m" by (cases n) auto
  with 0 wait_loop_died_step [of s p env m] show ?case by (simp del: wait_loop.simps)
next
  case (Suc k)
  then obtain m where n: "n = Suc m" and m: "k < m" by (cases n) auto
  let ?s = "s\<lparr>probes := probes s + 1, polls := polls s + 1, sleeps := sleeps s + 1,
        clock := clock s + 1, log := Sleep 1 # Probe # log s\<rparr>"
  have first: "unhealthy_reply (http_get env (probes s))" "poll_live env (polls s) = Inr False"
      "\<not> interrupted env (sleeps s)"
    using Suc.prems(3) by (auto dest: spec [of _ 0])
  have step: "wait_loop env n s = wait_loop env m ?s"
    unfolding n using Suc.prems(1,2) first by (rule wait_loop_idle_step)
  have rest: "\<forall>i<k. unhealthy_reply (http_get env (probes ?s + i)) \<and>
           poll_live env (polls ?s + i) = Inr False \<and> \<not> interrupted env (sleeps ?s + i)"
    using Suc.prems(3) by (auto dest: spec [of _ "Suc _"])
  have "fst (wait_loop env m ?s) = Return False \<and>
     probes (snd (wait_loop env m ?s)) = probes ?s + k + 1 \<and>
     clock (snd (wait_loop env m ?s)) = clock ?s + k \<and>
     hd (log (snd (wait_loop env m ?s))) = Log ''Service process died during startup''"
    using Suc.prems(1,2,4,5) rest m by (intro Suc.IH) simp_all
  then show ?case by (simp add: step del: wait_loop.simps)
qed

lemma wait_loop_timeout:
  assumes "process s = Some p" and "p \<in> alive s"
    and "\<forall>i<n. unhealthy_reply (http_get env (probes s + i)) \<and>
           poll_live env (polls s + i) = Inr False \<and> \<not> interrupted env (sleeps s + i)"
  shows "fst (wait_loop env n s) = Return False \<and>
     probes (snd (wait_loop env n s)) = probes s + n \<and>
     clock (snd (wait_loop env n s)) = clock s + n \<and>
     hd (log (snd (wait_loop env n s))) = Log ''Service failed to start within timeout''"
  using assms
proof (induction n arbitrary: s)
  case 0
  then show ?case by (simp add: log_msg_def emit_def)
next
  case (Suc n)
  let ?s = "s\<lparr>probes := probes s + 1, polls := polls s + 1, sleeps := sleeps s + 1,
        clock := clock s + 1, log := Sleep 1 # Probe # log s\<rparr>"
  have first: "unhealthy_reply (http_get env (probes s))" "poll_live env (polls s) = Inr False"
      "\<not> interrupted env (sleeps s)"
    using Suc.prems(3) by (auto dest: spec [of _ 0])
  have step: "wait_loop env (Suc n) s = wait_loop env n ?s"
    using Suc.prems(1,2) first by (rule wait_loop_idle_step)
  have rest: "\<forall>i<n. unhealthy_reply (http_get env (probes ?s + i)) \<and>
           poll_live env (polls ?s + i) = Inr False \<and> \<not> interrupted env (sleeps ?s + i)"
    using Suc.prems(3) by (auto dest: spec [of _ "Suc _"])
  have "fst (wait_loop env n ?s) = Return False \<and>
     probes (snd (wait_loop env n ?s)) = probes ?s + n \<and>
     clock (snd (wait_loop env n ?s)) = clock ?s + n \<and>
     hd (log (snd (wait_loop env n ?s))) = Log ''Service failed to start within timeout''"
    using Suc.prems(1,2) rest by (intro Suc.IH) simp_all
  then show ?case by (simp add: step del: wait_loop.simps)
qed


text \<open>
  Claim C4. \<open>wait_for_startup env max_wait\<close>, for a manager that owns a handle \<open>p\<close>:
  \<^item> after \<open>k < max_wait\<close> idle rounds, a healthy probe makes it return true at once:
    \<open>k + 1\<close> probes were made and \<open>k\<close> seconds slept, the remaining attempts are not used;
  \<^item> after \<open>k < max_wait\<close> idle rounds, an unhealthy probe followed by a poll that finds the
    child exited makes it return false in that same round, after \<open>k + 1\<close> probes and
    \<open>k\<close> seconds;
  \<^item> when the handle already holds an exit status, the first unhealthy probe makes it
    return false without any sleep;
  \<^item> after \<open>max_wait\<close> idle rounds it returns false, having made \<open>max_wait\<close> probes one
    second apart.
\<close>

theorem wait_for_startup_outcomes:
  assumes "process s = Some p"
  shows
   "(p \<in> alive s \<and> idle_rounds env s k \<and> k < max_wait \<and>
       healthy_reply (http_get env (probes s + k)) \<longrightarrow>
         fst (wait_for_startup env max_wait s) = Return True \<and>
         probes (snd (wait_for_startup env max_wait s)) = probes s + k + 1 \<and>
         clock (snd (wait_for_startup env max_wait s)) = clock s + k) \<and>
    (p \<in> alive s \<and> idle_rounds env s k \<and> k < max_wait \<and>
       unhealthy_reply (http_get env (probes s + k)) \<and> poll_live env (polls s + k) = Inr True \<longrightarrow>
         fst (wait_for_startup env max_wait s) = Return False \<and>
         probes (snd (wait_for_startup env max_wait s)) = probes s + k + 1 \<and>
         clock (snd (wait_for_startup env max_wait s)) = clock s + k \<and>
         hd (log (snd (wait_for_startup env max_wait s))) = Log ''Service process died during startup'') \<and>
    (p \<notin> alive s \<and> 0 < max_wait \<and> unhealthy_reply (http_get env (probes s)) \<longrightarrow>
         fst (wait_for_startup env max_wait s) = Return False \<and>
         probes (snd (wait_for_startup env max_wait s)) = probes s + 1 \<and>
         clock (snd (wait_for_startup env max_wait s)) = clock s \<and>
         hd (log (snd (wait_for_startup env max_wait s))) = Log ''Service process died during startup'') \<and>
    (p \<in> alive s \<and> idle_rounds env s max_wait \<longrightarrow>
         fst (wait_for_startup env max_wait s) = Return False \<and>
         probes (snd (wait_for_startup env max_wait s)) = probes s + max_wait \<and>
         clock (snd (wait_for_startup env max_wait s)) = clock s + max_wait \<and>
         hd (log (snd (wait_for_startup env max_wait s))) = Log ''Service failed to start within timeout'')"
proof -
  let ?s = "log_msg ''Waiting for service to be ready...'' s"
  have fields: "process ?s = Some p" "alive ?s = alive s" "probes ?s = probes s"
      "polls ?s = polls s" "sleeps ?s = sleeps s" "clock ?s = clock s"
    using assms by (simp_all add: log_msg_def emit_def)
  have idle: "idle_rounds env s j \<Longrightarrow>
      \<forall>i<j. unhealthy_reply (http_get env (probes ?s + i)) \<and>
        poll_live env (polls ?s + i) = Inr False \<and> \<not> interrupted env (sleeps ?s + i)" for j
    by (simp add: idle_rounds_def fields)
  have healthy: "fst (wait_for_startup env max_wait s) = Return True \<and>
         probes (snd (wait_for_startup env max_wait s)) = probes s + k + 1 \<and>
         clock (snd (wait_for_startup env max_wait s)) = clock s + k"
    if "p \<in> alive s" "idle_rounds env s k" "k < max_wait"
      "healthy_reply (http_get env (probes s + k))"
    using wait_loop_healthy [of ?s p k env max_wait] that idle [of k]
    by (simp add: fields wait_for_startup_def)
  have died: "fst (wait_for_startup env max_wait s) = Return False \<and>
         probes (snd (wait_for_startup env max_wait s)) = probes s + k + 1 \<and>
         clock (snd (wait_for_startup env max_wait s)) = clock s + k \<and>
         hd (log (snd (wait_for_startup env max_wait s))) = Log ''Service process died during startup''"
    if "p \<in> alive s" "idle_rounds env s k" "k < max_wait"
      "unhealthy_reply (http_get env (probes s + k))" "poll_live env (polls s + k) = Inr True"
    using wait_loop_died [of ?s p k env max_wait] that idle [of k]
    by (simp add: fields wait_for_startup_def)
  have gone: "fst (wait_for_startup env max_wait s) = Return False \<and>
         probes (snd (wait_for_startup env max_wait s)) = probes s + 1 \<and>
         clock (snd (wait_for_startup env max_wait s)) = clock s \<and>
         hd (log (snd (wait_for_startup env max_wait s))) = Log ''Service process died during startup''"
    if gone: "p \<notin> alive s" and pos: "0 < max_wait"
      and bad: "unhealthy_reply (http_get env (probes s))"
  proof -
    obtain m where "max_wait = Suc m" using pos by (cases max_wait) auto
    then show ?thesis
      using wait_loop_died_step [of ?s p env m] gone bad
      by (simp add: fields wait_for_startup_def del: wait_loop.simps)
  qed
  have timeout: "fst (wait_for_startup env max_wait s) = Return False \<and>
         probes (snd (wait_for_startup env max_wait s)) = probes s + max_wait \<and>
         clock (snd (wait_for_startup env max_wait s)) = clock s + max_wait \<and>
         hd (log (snd (wait_for_startup env max_wait s))) = Log ''Service failed to start within timeout''"
    if "p \<in> alive s" "idle_rounds env s max_wait"
    using wait_loop_timeout [of ?s p max_wait env] that idle [of max_wait]
    by (simp add: fields wait_for_startup_def)
  from healthy died gone timeout show ?thesis by blast
qed

theorem wait_for_startup_outcomes_witness:
  "fst (wait_for_startup (calm\<lparr>http_get := \<lambda>i. if i < 2 then Inl ConnectionError else Inr healthy_response\<rparr>) 5 owning) = Return True \<and>
   clock (snd (wait_for_startup (calm\<lparr>http_get := \<lambda>i. if i < 2 then Inl ConnectionError else Inr healthy_response\<rparr>) 5 owning)) = 2 \<and>
   probes (snd (wait_for_startup (calm\<lparr>http_get := \<lambda>i. if i < 2 then Inl ConnectionError else Inr healthy_response\<rparr>) 5 owning)) = 3 \<and>
   fst (wait_for_startup (calm\<lparr>http_get := \<lambda>i. Inl ConnectionError, poll_live := \<lambda>i. Inr (1 \<le> i)\<rparr>) 30 owning) = Return False \<and>
   clock (snd (wait_for_startup (calm\<lparr>http_get := \<lambda>i. Inl ConnectionError, poll_live := \<lambda>i. Inr (1 \<le> i)\<rparr>) 30 owning)) = 1 \<and>
   fst (wait_for_startup (calm\<lparr>http_get := \<lambda>i. Inl ConnectionError\<rparr>) 30 (owning\<lparr>alive := {}\<rparr>)) = Return False \<and>
   clock (snd (wait_for_startup (calm\<lparr>http_get := \<lambda>i. Inl ConnectionError\<rparr>) 30 (owning\<lparr>alive := {}\<rparr>))) = 0 \<and>
   fst (wait_for_startup (calm\<lparr>http_get := \<lambda>i. Inl ConnectionError\<rparr>) 30 owning) = Return False \<and>
   clock (snd (wait_for_startup (calm\<lparr>http_get := \<lambda>i. Inl ConnectionError\<rparr>) 30 owning)) = 30"
  using
    wait_for_startup_outcomes [of owning 0 "calm\<lparr>http_get := \<lambda>i. if i < 2 then Inl ConnectionError else Inr healthy_response\<rparr>" 2 5]
    wait_for_startup_outcomes [of owning 0 "calm\<lparr>http_get := \<lambda>i. Inl ConnectionError, poll_live := \<lambda>i. Inr (1 \<le> i)\<rparr>" 1 30]
    wait_for_startup_outcomes [of "owning\<lparr>alive := {}\<rparr>" 0 "calm\<lparr>http_get := \<lambda>i. Inl ConnectionError\<rparr>" 0 30]
    wait_for_startup_outcomes [of owning 0 "calm\<lparr>http_get := \<lambda>i. Inl ConnectionError\<rparr>" 30 30]
  by (simp add: calm_def owning_def init_def healthy_response_def idle_rounds_def
      unhealthy_reply_def healthy_reply_def)

subsection \<open>Shutting down\<close>

lemma shutdown_eq:
  "shutdown env s =
     (Return (),
      case process s of
        None \<Rightarrow> s\<lparr>running := False\<rparr>
      | Some p \<Rightarrow>
          if p \<notin> alive s then
            s\<lparr>running := False,
              log := [Log ''Service shutdown complete'', Call_wait p, Call_terminate p,
                      Log ''Shutting down service...''] @ log s\<rparr>
          else if exited_unnoticed env (signals s) then
            s\<lparr>running := False, alive := alive s - {p}, signals := signals s + 1,
              log := [Log ''Service shutdown complete'', Call_wait p, Reaped p,
                      Call_terminate p, Log ''Shutting down service...''] @ log s\<rparr>
          else if wait_live env (waits s) then
            s\<lparr>running := False, alive := alive s - {p}, signals := signals s + 1,
              waits := waits s + 1,
              log := [Log ''Service shutdown complete'', Reaped p, Call_wait p, Sigterm p,
                      Call_terminate p, Log ''Shutting down service...''] @ log s\<rparr>
          else if exited_unnoticed env (signals s + 1) then
            s\<lparr>running := False, alive := alive s - {p}, signals := signals s + 2,
              waits := waits s + 1,
              log := [Log ''Service shutdown complete'', Call_wait p, Reaped p, Call_kill p,
                      Call_wait p, Sigterm p, Call_terminate p,
                      Log ''Shutting down service...''] @ log s\<rparr>
          else
            s\<lparr>running := False, alive := alive s - {p}, signals := signals s + 2,
              waits := waits s + 1,
              log := [Log ''Service shutdown complete'', Reaped p, Call_wait p, Sigkill p,
                      Call_kill p, Call_wait p, Sigterm p, Call_terminate p,
                      Log ''Shutting down service...''] @ log s\<rparr>)"
  by (simp add: shutdown_def terminate_def wait_timeout_def kill_def wait_def
      except_TimeoutExpired_def log_msg_def emit_def Let_def split: option.splits)

lemma added_append: "log s' = evs @ log s \<Longrightarrow> added s s' = evs"
  by (simp add: added_def)

lemma shutdown_returns: "fst (shutdown env s) = Return ()"
  by (simp add: shutdown_eq)

lemma shutdown_pair: "shutdown env s = (Return (), snd (shutdown env s))"
  using shutdown_returns [of env s] by (cases "shutdown env s") simp

lemma bind_shutdown: "bind (shutdown env s) f = f () (snd (shutdown env s))"
  by (subst shutdown_pair) simp

lemma shutdown_fields:
  "running (snd (shutdown env s)) = False" "process (snd (shutdown env s)) = process s"
  by (simp_all add: shutdown_eq split: option.splits)

lemma shutdown_reaps: "process s = Some p \<Longrightarrow> p \<notin> alive (snd (shutdown env s))"
  by (simp add: shutdown_eq)

lemma shutdown_log_None: "process s = None \<Longrightarrow> log (snd (shutdown env s)) = log s"
  by (simp add: shutdown_eq)

lemma shutdown_log_Some:
  "process s = Some p \<Longrightarrow>
   log (snd (shutdown env s)) =
     (if p \<notin> alive s then
        [Log ''Service shutdown complete'', Call_wait p, Call_terminate p,
         Log ''Shutting down service...'']
      else if exited_unnoticed env (signals s) then
        [Log ''Service shutdown complete'', Call_wait p, Reaped p, Call_terminate p,
         Log ''Shutting down service...'']
      else if wait_live env (waits s) then
        [Log ''Service shutdown complete'', Reaped p, Call_wait p, Sigterm p,
         Call_terminate p, Log ''Shutting down service...'']
      else if exited_unnoticed env (signals s + 1) then
        [Log ''Service shutdown complete'', Call_wait p, Reaped p, Call_kill p,
         Call_wait p, Sigterm p, Call_terminate p, Log ''Shutting down service...'']
      else
        [Log ''Service shutdown complete'', Reaped p, Call_wait p, Sigkill p,
         Call_kill p, Call_wait p, Sigterm p, Call_terminate p,
         Log ''Shutting down service...'']) @ log s"
  by (simp add: shutdown_eq)

lemma shutdown_reaped:
  "process s = Some p \<Longrightarrow> p \<notin> alive s \<Longrightarrow>
   alive (snd (shutdown env s)) = alive s \<and> waits (snd (shutdown env s)) = waits s \<and>
   signals (snd (shutdown env s)) = signals s \<and>
   log (snd (shutdown env s)) =
     [Log ''Service shutdown complete'', Call_wait p, Call_terminate p,
      Log ''Shutting down service...''] @ log s"
  by (simp add: shutdown_eq)

lemma shutdown_None:
  "process s = None \<Longrightarrow>
   alive (snd (shutdown env s)) = alive s \<and> waits (snd (shutdown env s)) = waits s \<and>
   signals (snd (shutdown env s)) = signals s"
  by (simp add: shutdown_eq)

text \<open>
  Claim C5, as the code has it. \<open>shutdown\<close> always returns, sets \<open>running\<close> to false and
  keeps the handle. With a handle it calls \<^verbatim>\<open>terminate()\<close>, then \<^verbatim>\<open>wait(timeout=10)\<close>,
  and calls \<^verbatim>\<open>kill()\<close> only when the wait timed out; afterwards the handle holds an exit
  status. The signals go out only to a child that is still running: a child found to
  have exited gets none, and its exit is recorded by the call that finds it. A second
  call right after the first one returns as well and leaves \<open>process\<close>, \<open>running\<close> and
  the set of children without exit status as they were. It does call \<^verbatim>\<open>terminate()\<close> and
  \<^verbatim>\<open>wait(timeout=10)\<close> on the kept handle once more; on that handle the two calls send
  no signal, ask nothing of the outside world and do not block.
\<close>

theorem shutdown_twice:
  "fst (shutdown env s) = Return () \<and>
   running (snd (shutdown env s)) = False \<and>
   process (snd (shutdown env s)) = process s \<and>
   (process s = None \<longrightarrow> log (snd (shutdown env s)) = log s) \<and>
   (process s = Some p \<longrightarrow>
      p \<notin> alive (snd (shutdown env s)) \<and>
      added s (snd (shutdown env s)) =
        (if p \<notin> alive s then
        [Log ''Service shutdown complete'', Call_wait p, Call_terminate p,
         Log ''Shutting down service...'']
      else if exited_unnoticed env (signals s) then
        [Log ''Service shutdown complete'', Call_wait p, Reaped p, Call_terminate p,
         Log ''Shutting down service...'']
      else if wait_live env (waits s) then
        [Log ''Service shutdown complete'', Reaped p, Call_wait p, Sigterm p,
         Call_terminate p, Log ''Shutting down service...'']
      else if exited_unnoticed env (signals s + 1) then
        [Log ''Service shutdown complete'', Call_wait p, Reaped p, Call_kill p,
         Call_wait p, Sigterm p, Call_terminate p, Log ''Shutting down service...'']
      else
        [Log ''Service shutdown complete'', Reaped p, Call_wait p, Sigkill p,
         Call_kill p, Call_wait p, Sigterm p, Call_terminate p,
         Log ''Shutting down service...''])) \<and>
   fst (shutdown env' (snd (shutdown env s))) = Return () \<and>
   running (snd (shutdown env' (snd (shutdown env s)))) = False \<and>
   process (snd (shutdown env' (snd (shutdown env s)))) = process (snd (shutdown env s)) \<and>
   alive (snd (shutdown env' (snd (shutdown env s)))) = alive (snd (shutdown env s)) \<and>
   waits (snd (shutdown env' (snd (shutdown env s)))) = waits (snd (shutdown env s)) \<and>
   signals (snd (shutdown env' (snd (shutdown env s)))) = signals (snd (shutdown env s)) \<and>
   added (snd (shutdown env s)) (snd (shutdown env' (snd (shutdown env s)))) =
     (case process s of
        None \<Rightarrow> []
      | Some p \<Rightarrow>
          [Log ''Service shutdown complete'', Call_wait p, Call_terminate p,
           Log ''Shutting down service...''])"
proof -
  let ?s1 = "snd (shutdown env s)"
  have first: "process s = Some p \<longrightarrow>
      p \<notin> alive ?s1 \<and>
      added s ?s1 =
        (if p \<notin> alive s then
        [Log ''Service shutdown complete'', Call_wait p, Call_terminate p,
         Log ''Shutting down service...'']
      else if exited_unnoticed env (signals s) then
        [Log ''Service shutdown complete'', Call_wait p, Reaped p, Call_terminate p,
         Log ''Shutting down service...'']
      else if wait_live env (waits s) then
        [Log ''Service shutdown complete'', Reaped p, Call_wait p, Sigterm p,
         Call_terminate p, Log ''Shutting down service...'']
      else if exited_unnoticed env (signals s + 1) then
        [Log ''Service shutdown complete'', Call_wait p, Reaped p, Call_kill p,
         Call_wait p, Sigterm p, Call_terminate p, Log ''Shutting down service...'']
      else
        [Log ''Service shutdown complete'', Reaped p, Call_wait p, Sigkill p,
         Call_kill p, Call_wait p, Sigterm p, Call_terminate p,
         Log ''Shutting down service...''])"
    using shutdown_reaps [of s p env] added_append [OF shutdown_log_Some [of s p env]]
    by blast
  have second: "alive (snd (shutdown env' ?s1)) = alive ?s1 \<and>
      waits (snd (shutdown env' ?s1)) = waits ?s1 \<and>
      signals (snd (shutdown env' ?s1)) = signals ?s1 \<and>
      added ?s1 (snd (shutdown env' ?s1)) =
        (case process s of
           None \<Rightarrow> []
         | Some p \<Rightarrow>
             [Log ''Service shutdown complete'', Call_wait p, Call_terminate p,
              Log ''Shutting down service...''])"
  proof (cases "process s")
    case None
    then have "process ?s1 = None" by (simp add: shutdown_fields)
    then show ?thesis
      using shutdown_None [of ?s1 env'] added_append [of "snd (shutdown env' ?s1)" "[]" ?s1]
        shutdown_log_None [of ?s1 env'] None
      by simp
  next
    case (Some q)
    then have q: "process ?s1 = Some q" "q \<notin> alive ?s1"
      by (simp_all add: shutdown_fields shutdown_reaps)
    show ?thesis
      using shutdown_reaped [OF q, of env'] added_append [of "snd (shutdown env' ?s1)" _ ?s1] Some
      by simp
  qed
  show ?thesis
    using first second shutdown_returns shutdown_fields shutdown_log_None [of s env]
    by simp
qed

theorem shutdown_twice_witness:
  "added owning (snd (shutdown (calm\<lparr>wait_live := \<lambda>i. False\<rparr>) owning)) =
     [Log ''Service shutdown complete'', Reaped 0, Call_wait 0, Sigkill 0,
      Call_kill 0, Call_wait 0, Sigterm 0, Call_terminate 0, Log ''Shutting down service...''] \<and>
   added owning (snd (shutdown calm owning)) =
     [Log ''Service shutdown complete'', Reaped 0, Call_wait 0, Sigterm 0,
      Call_terminate 0, Log ''Shutting down service...''] \<and>
   added owning (snd (shutdown (calm\<lparr>exited_unnoticed := \<lambda>i. True\<rparr>) owning)) =
     [Log ''Service shutdown complete'', Call_wait 0, Reaped 0, Call_terminate 0,
      Log ''Shutting down service...''] \<and>
   0 \<notin> alive (snd (shutdown calm owning)) \<and>
   fst (shutdown calm (snd (shutdown calm owning))) = Return () \<and>
   added (snd (shutdown calm owning)) (snd (shutdown calm (snd (shutdown calm owning)))) =
     [Log ''Service shutdown complete'', Call_wait 0, Call_terminate 0,
      Log ''Shutting down service...'']"
  using shutdown_twice [of "calm\<lparr>wait_live := \<lambda>i. False\<rparr>" owning 0 calm]
    shutdown_twice [of calm owning 0 calm]
    shutdown_twice [of "calm\<lparr>exited_unnoticed := \<lambda>i. True\<rparr>" owning 0 calm]
  by (simp add: calm_def owning_def init_def)

text \<open>
  The second \<open>shutdown\<close> is not silent: for a manager that owns a running child, the
  first call records the child's exit, and the second call again calls
  \<^verbatim>\<open>terminate()\<close> and \<^verbatim>\<open>wait()\<close> on the handle of that child.
\<close>

theorem shutdown_twice_calls_terminate_again:
  "0 \<notin> alive (snd (shutdown calm owning)) \<and>
   log (snd (shutdown calm (snd (shutdown calm owning)))) =
     [Log ''Service shutdown complete'', Call_wait 0, Call_terminate 0,
      Log ''Shutting down service...''] @ log (snd (shutdown calm owning))"
  by (simp add: shutdown_eq calm_def owning_def init_def)

subsection \<open>At most one live child\<close>

lemma finite_live [simp]: "finite (live es)"
  by (induction es rule: live.induct) auto

lemma card_owned: "owned_only s \<Longrightarrow> card (alive s) \<le> 1"
proof -
  assume o: "owned_only s"
  show ?thesis
  proof (cases "process s")
    case None
    with o have "alive s = {}" by (auto simp: owned_only_def)
    then show ?thesis by simp
  next
    case (Some p)
    with o have "alive s \<subseteq> {p}" by (auto simp: owned_only_def)
    then have "card (alive s) \<le> card {p}" by (intro card_mono) auto
    then show ?thesis by simp
  qed
qed

lemma finite_owned: "owned_only s \<Longrightarrow> finite (alive s)"
  using finite_live [of "log s"] by (simp add: owned_only_def)

lemma card_Diff_le_1: "finite A \<Longrightarrow> card A \<le> 1 \<Longrightarrow> card (A - B) \<le> 1"
  by (meson Diff_subset card_mono le_trans)

lemma owned_only_counters [simp]:
  "owned_only (s\<lparr>running := b\<rparr>) = owned_only s"
  "owned_only (s\<lparr>next_pid := n\<rparr>) = owned_only s"
  "owned_only (s\<lparr>probes := n\<rparr>) = owned_only s"
  "owned_only (s\<lparr>polls := n\<rparr>) = owned_only s"
  "owned_only (s\<lparr>lookups := n\<rparr>) = owned_only s"
  "owned_only (s\<lparr>launches := n\<rparr>) = owned_only s"
  "owned_only (s\<lparr>waits := n\<rparr>) = owned_only s"
  "owned_only (s\<lparr>sleeps := n\<rparr>) = owned_only s"
  "owned_only (s\<lparr>clock := n\<rparr>) = owned_only s"
  "owned_only (s\<lparr>signals := n\<rparr>) = owned_only s"
  "owned_only (s\<lparr>installs := n\<rparr>) = owned_only s"
  "owned_only (s\<lparr>handled := H\<rparr>) = owned_only s"
  by (simp_all add: owned_only_def)

lemma owned_only_log_msg [simp]: "owned_only s \<Longrightarrow> owned_only (log_msg m s)"
  using card_owned [of s] by (auto simp: owned_only_def log_msg_def emit_def)

lemma owned_only_events [simp]:
  "owned_only s \<Longrightarrow> owned_only (emit Probe s)"
  "owned_only s \<Longrightarrow> owned_only (emit (Sleep n) s)"
  "owned_only s \<Longrightarrow> owned_only (emit (Call_terminate p) s)"
  "owned_only s \<Longrightarrow> owned_only (emit (Sigterm p) s)"
  "owned_only s \<Longrightarrow> owned_only (emit (Call_wait p) s)"
  "owned_only s \<Longrightarrow> owned_only (emit (Call_kill p) s)"
  "owned_only s \<Longrightarrow> owned_only (emit (Sigkill p) s)"
  using card_owned [of s] by (auto simp: owned_only_def emit_def)

lemma owned_only_reap:
  assumes "owned_only s"
  shows "owned_only (emit (Reaped p) (s\<lparr>alive := alive s - {p}\<rparr>))"
  using assms card_owned [of s] finite_owned [of s] card_Diff_le_1 [of "alive s" "{p}"]
  by (auto simp: owned_only_def emit_def)

lemma owned_only_spawn:
  assumes "owned_only s" and "alive s = {}"
  shows "owned_only ((emit (Spawn q out err) (s\<lparr>alive := insert q (alive s)\<rparr>))\<lparr>process := Some q\<rparr>)"
  using assms by (auto simp: owned_only_def emit_def)

lemma bind_owned:
  assumes "owned_only (snd m)" and "\<And>a s'. owned_only s' \<Longrightarrow> owned_only (snd (f a s'))"
  shows "owned_only (snd (bind m f))"
proof (cases m)
  case (Pair r s')
  with assms show ?thesis by (cases r) auto
qed

lemma except_Exception_owned:
  assumes "owned_only (snd m)" and "\<And>e s'. owned_only s' \<Longrightarrow> owned_only (snd (h e s'))"
  shows "owned_only (snd (except_Exception m h))"
proof (cases m)
  case (Pair r s')
  with assms show ?thesis by (cases r) (auto simp: except_Exception_def)
qed

lemma poll_owned: "owned_only s \<Longrightarrow> owned_only (snd (poll env p s))"
  using owned_only_reap [of "s\<lparr>polls := polls s + 1\<rparr>" p]
  by (auto simp: poll_def Let_def split: sum.splits bool.splits)

lemma terminate_owned: "owned_only s \<Longrightarrow> owned_only (snd (terminate env p s))"
  using owned_only_reap [of "(emit (Call_terminate p) s)\<lparr>signals := signals s + 1\<rparr>" p]
  by (simp add: terminate_def Let_def) (simp add: emit_def)

lemma kill_owned: "owned_only s \<Longrightarrow> owned_only (snd (kill env p s))"
  using owned_only_reap [of "(emit (Call_kill p) s)\<lparr>signals := signals s + 1\<rparr>" p]
  by (simp add: kill_def Let_def) (simp add: emit_def)

lemma wait_owned: "owned_only s \<Longrightarrow> owned_only (snd (wait p s))"
  using owned_only_reap [of "emit (Call_wait p) s" p]
  by (simp add: wait_def Let_def)

lemma wait_timeout_owned: "owned_only s \<Longrightarrow> owned_only (snd (wait_timeout env p s))"
  using owned_only_reap [of "(emit (Call_wait p) s)\<lparr>waits := waits s + 1\<rparr>" p]
  by (simp add: wait_timeout_def Let_def) (simp add: emit_def)

lemma except_TimeoutExpired_owned:
  assumes "owned_only (snd m)" and "\<And>s'. owned_only s' \<Longrightarrow> owned_only (snd (h s'))"
  shows "owned_only (snd (except_TimeoutExpired m h))"
proof (cases m)
  case (Pair r s')
  with assms show ?thesis by (cases r) (auto simp: except_TimeoutExpired_def)
qed

lemma shutdown_owned: "owned_only s \<Longrightarrow> owned_only (snd (shutdown env s))"
  unfolding shutdown_def Let_def
  by (auto intro!: bind_owned terminate_owned except_TimeoutExpired_owned wait_timeout_owned
        kill_owned wait_owned split: option.splits)

lemma signal_handler_owned: "owned_only s \<Longrightarrow> owned_only (snd (signal_handler env s))"
  unfolding signal_handler_def
  by (intro bind_owned shutdown_owned) simp_all

lemma signal_signal_owned: "owned_only s \<Longrightarrow> owned_only (snd (signal_signal env sig s))"
  by (simp add: signal_signal_def Let_def split: option.splits)

lemma sleep_owned: "owned_only s \<Longrightarrow> owned_only (snd (sleep env n s))"
  by (simp add: sleep_def Let_def signal_handler_owned)

lemma check_health_owned: "owned_only s \<Longrightarrow> owned_only (snd (check_health env s))"
  by (cases "http_get env (probes s) = Inl KeyboardInterrupt")
     (simp_all add: check_health_reply check_health_interrupt)

lemma process_has_exited_owned:
  "owned_only s \<Longrightarrow> owned_only (snd (process_has_exited env s))"
  by (simp add: process_has_exited_def poll_owned split: option.splits)

lemma process_is_live_owned:
  assumes "owned_only s"
  shows "owned_only (snd (process_is_live env s)) \<and>
         (fst (process_is_live env s) = Return False \<longrightarrow> alive (snd (process_is_live env s)) = {})"
proof (cases "process s")
  case None
  with assms show ?thesis by (auto simp: process_is_live_def owned_only_def)
next
  case (Some p)
  have sub: "alive s \<subseteq> {p}" using assms Some by (auto simp: owned_only_def)
  have "owned_only (snd (poll env p s))" using assms by (rule poll_owned)
  moreover have "fst (poll env p s) = Return True \<longrightarrow> alive (snd (poll env p s)) = {}"
    using sub by (auto simp: poll_def Let_def emit_def split: sum.splits bool.splits)
  ultimately show ?thesis
    using Some by (cases "poll env p s"; cases "fst (poll env p s)") (auto simp: process_is_live_def)
qed

lemma start_service_owned:
  assumes "owned_only s"
  shows "owned_only (snd (start_service env s))"
proof -
  obtain r s1 where live: "process_is_live env s = (r, s1)" by (cases "process_is_live env s")
  have o1: "owned_only s1" and e1: "r = Return False \<Longrightarrow> alive s1 = {}"
    using process_is_live_owned [OF assms, of env] live by auto
  show ?thesis
  proof (cases r)
    case (Return b)
    show ?thesis
    proof (cases b)
      case True
      with Return o1 show ?thesis
        by (simp add: start_service_def start_service_try_def live except_Exception_def)
    next
      case False
      with Return e1 have "alive s1 = {}" by simp
      with o1 have "live (log s1) = {}" "at_most_one_live (log s1)"
        by (simp_all add: owned_only_def)
      with Return False \<open>alive s1 = {}\<close> show ?thesis
        by (auto simp: start_service_def start_service_try_def live except_Exception_def
            path_exists_def Popen_def Let_def owned_only_def log_msg_def emit_def
            split: option.splits)
    qed
  next
    case (Raise e)
    with o1 show ?thesis
      by (simp add: start_service_def start_service_try_def live except_Exception_def)
  next
    case (Exit c)
    with o1 show ?thesis
      by (simp add: start_service_def start_service_try_def live except_Exception_def)
  next
    case Unfinished
    with o1 show ?thesis
      by (simp add: start_service_def start_service_try_def live except_Exception_def)
  qed
qed


lemma wait_loop_owned: "owned_only s \<Longrightarrow> owned_only (snd (wait_loop env n s))"
proof (induction n arbitrary: s)
  case 0
  then show ?case by simp
next
  case (Suc n)
  show ?case
    unfolding wait_loop.simps
    by (intro bind_owned check_health_owned Suc.prems)
       (auto intro!: bind_owned process_has_exited_owned sleep_owned Suc.IH)
qed

lemma wait_for_startup_owned:
  "owned_only s \<Longrightarrow> owned_only (snd (wait_for_startup env n s))"
  by (simp add: wait_for_startup_def wait_loop_owned)

lemma monitor_try_owned: "owned_only s \<Longrightarrow> owned_only (snd (monitor_try env s))"
  unfolding monitor_try_def
  by (intro bind_owned process_has_exited_owned)
     (auto intro!: bind_owned start_service_owned wait_for_startup_owned sleep_owned
        check_health_owned terminate_owned split: option.splits)

lemma monitor_loop_owned: "owned_only s \<Longrightarrow> owned_only (snd (monitor_loop env n s))"
proof (induction n arbitrary: s)
  case 0
  then show ?case by simp
next
  case (Suc n)
  have body: "owned_only (snd (monitor_try env s))"
    using Suc.prems by (rule monitor_try_owned)
  obtain r s1 where m: "monitor_try env s = (r, s1)" by (cases "monitor_try env s")
  with body have o1: "owned_only s1" by simp
  have handler: "owned_only (snd (bind (sleep env 5 (log_msg ''Monitor error: '' s1))
      (\<lambda>_ s2. monitor_loop env n s2)))"
    using o1 by (intro bind_owned sleep_owned owned_only_log_msg Suc.IH)
  show ?case
  proof (cases r)
    case (Return c)
    with m o1 Suc.prems Suc.IH [OF o1] show ?thesis by (cases c) auto
  next
    case (Raise e)
    with m o1 Suc.prems handler show ?thesis by auto
  next
    case (Exit c)
    with m o1 Suc.prems show ?thesis by auto
  next
    case Unfinished
    with m o1 Suc.prems show ?thesis by auto
  qed
qed

lemma monitor_service_owned:
  "owned_only s \<Longrightarrow> owned_only (snd (monitor_service env n s))"
  by (simp add: monitor_service_def monitor_loop_owned)

lemma run_try_owned: "owned_only s \<Longrightarrow> owned_only (snd (run_try env n s))"
  unfolding run_try_def
  by (intro bind_owned start_service_owned)
     (auto intro!: bind_owned wait_for_startup_owned monitor_service_owned)

lemma run_finally_owned: "owned_only s \<Longrightarrow> owned_only (snd (run_finally env n s))"
proof -
  assume o: "owned_only s"
  let ?x = "except_Exception (run_try env n s)
             (\<lambda>e s1. (Return None, log_msg ''Service manager error: '' s1))"
  have "owned_only (snd ?x)"
    using o by (intro except_Exception_owned run_try_owned) auto
  then show ?thesis
    unfolding run_finally_def
    by (cases ?x; cases "fst ?x")
       (auto intro!: bind_owned shutdown_owned split: option.splits)
qed

lemma run_owned: "owned_only s \<Longrightarrow> owned_only (snd (run env n s))"
  unfolding run_def
  by (intro bind_owned signal_signal_owned run_finally_owned) simp_all

lemma start_service_spawn:
  assumes "owned_only s" and "next_pid (snd (start_service env s)) \<noteq> next_pid s"
  shows "alive (snd (start_service env s)) = {next_pid s} \<and>
         process (snd (start_service env s)) = Some (next_pid s)"
proof -
  obtain r s1 where live: "process_is_live env s = (r, s1)" by (cases "process_is_live env s")
  have e1: "r = Return False \<Longrightarrow> alive s1 = {}"
    using process_is_live_owned [OF assms(1), of env] live by auto
  have n1: "next_pid s1 = next_pid s"
    using live by (auto simp: process_is_live_def poll_def Let_def emit_def
        split: option.splits sum.splits bool.splits if_splits)
  show ?thesis
    using assms(2) e1 n1
    by (cases r)
       (auto simp: start_service_def start_service_try_def live except_Exception_def
          path_exists_def Popen_def Let_def log_msg_def emit_def
          split: option.splits if_splits)
qed


text \<open>The definitions that evaluation at a concrete input unfolds.\<close>

lemmas eval_defs =
  main_def exit_code_def run_def run_finally_def run_try_def signal_signal_def signal_handler_def
  start_service_def start_service_try_def process_is_live_def
  process_has_exited_def poll_def path_exists_def Popen_def except_Exception_def
  except_TimeoutExpired_def wait_for_startup_def check_health_def check_health_try_def
  requests_get_def lift_def response_json_def json_get_def monitor_service_def monitor_try_def
  shutdown_def terminate_def wait_timeout_def kill_def wait_def sleep_def log_msg_def emit_def
  init_def calm_def crashing_def owning_def healthy_response_def is_Exception_def Let_def
  restart_fails_def never_ready_def never_healthy_def off_main_thread_def interrupting_def
  eval_nat_numeral

text \<open>
  Claim C1. Start from a state in which the manager's view agrees with the history (as
  in the initial state, where nothing was spawned). Then for every environment and
  every number of iterations of the monitoring loop (crashes, unhealthy probes, failed
  restarts, exceptions), at every moment of the history at most one child is live, in
  \<open>monitor_service\<close> alone and in a whole \<open>run\<close>, and at most one handle is without exit
  status at the end. Whenever \<open>start_service\<close> spawns a child, the new child is the only
  live one: the handle owned before has an exit status.
\<close>

theorem at_most_one_live_worker:
  assumes "owned_only s"
  shows "at_most_one_live (log (snd (monitor_service env fuel s))) \<and>
         card (alive (snd (monitor_service env fuel s))) \<le> 1 \<and>
         owned_only (snd (monitor_service env fuel s)) \<and>
         at_most_one_live (log (snd (run env fuel s))) \<and>
         card (alive (snd (run env fuel s))) \<le> 1 \<and>
         (next_pid (snd (start_service env s)) \<noteq> next_pid s \<longrightarrow>
            alive (snd (start_service env s)) = {next_pid s} \<and>
            process (snd (start_service env s)) = Some (next_pid s))"
proof -
  have m: "owned_only (snd (monitor_service env fuel s))"
    using assms by (rule monitor_service_owned)
  have r: "owned_only (snd (run env fuel s))"
    using assms by (rule run_owned)
  show ?thesis
    using m r card_owned [OF m] card_owned [OF r] start_service_spawn [OF assms, of env]
    by (simp add: owned_only_def)
qed

theorem at_most_one_live_worker_witness:
  "at_most_one_live (log (snd (run crashing 2 init))) \<and>
   next_pid (snd (run crashing 2 init)) = 3 \<and>
   alive (snd (run crashing 2 init)) = {2} \<and>
   alive (snd (start_service crashing init)) = {0}"
proof -
  have o: "owned_only init" by (simp add: owned_only_def init_def)
  have n: "next_pid (snd (run crashing 2 init)) = 3 \<and> alive (snd (run crashing 2 init)) = {2}"
    by (simp add: eval_defs)
  have s: "next_pid (snd (start_service crashing init)) \<noteq> next_pid init"
    by (simp add: eval_defs)
  show ?thesis
    using at_most_one_live_worker [OF o, of crashing 2] n s by (simp add: init_def)
qed

subsection \<open>The monitoring loop\<close>

lemma signal_handler_exits: "fst (signal_handler env s) = Exit 0"
  by (simp add: signal_handler_def bind_shutdown)

lemma sleep_cases:
  "sleep env n s =
     (if interrupted env (sleeps s) then
        if SIGINT \<in> handled s then signal_handler env (s\<lparr>sleeps := sleeps s + 1\<rparr>)
        else (Raise KeyboardInterrupt, s\<lparr>sleeps := sleeps s + 1\<rparr>)
      else (Return (), s\<lparr>sleeps := sleeps s + 1, clock := clock s + n, log := Sleep n # log s\<rparr>))"
  by (simp add: sleep_def emit_def Let_def)

lemma sleep_raises_interrupt_only: "fst (sleep env n s) = Raise e \<Longrightarrow> e = KeyboardInterrupt"
  by (auto simp: sleep_cases signal_handler_exits split: if_splits)

lemma monitor_loop_raises_interrupt_only:
  "fst (monitor_loop env n s) = Raise e \<Longrightarrow> e = KeyboardInterrupt"
proof (induction n arbitrary: s)
  case 0
  then show ?case by (simp split: if_splits)
next
  case (Suc n)
  obtain r s1 where m: "monitor_try env s = (r, s1)" by (cases "monitor_try env s")
  show ?case
  proof (cases r)
    case (Return c)
    with Suc m show ?thesis by (cases c) (auto split: if_splits)
  next
    case (Raise x)
    obtain r2 s2 where sl: "sleep env 5 (log_msg ''Monitor error: '' s1) = (r2, s2)"
      by (cases "sleep env 5 (log_msg ''Monitor error: '' s1)")
    have r2: "r2 = Raise e \<Longrightarrow> e = KeyboardInterrupt"
      using sleep_raises_interrupt_only [of env 5 "log_msg ''Monitor error: '' s1" e] sl by simp
    from Suc m Raise sl r2 show ?thesis
      by (cases r2) (auto simp: is_Exception_def split: if_splits)
  next
    case (Exit c)
    with Suc m show ?thesis by (auto split: if_splits)
  next
    case Unfinished
    with Suc m show ?thesis by (auto split: if_splits)
  qed
qed

text \<open>
  Claim C9. No \<^verbatim>\<open>Exception\<close> leaves \<open>monitor_service\<close>, whatever the environment and
  however many iterations run. When the body of one iteration raises an
  \<^verbatim>\<open>Exception\<close>, the loop logs it, sleeps five seconds and goes on with the next
  iteration (only an interrupt signal during that sleep ends it).
\<close>

theorem monitor_survives_exception:
  "(is_Exception e \<longrightarrow> fst (monitor_service env n s) \<noteq> Raise e) \<and>
   (running s \<and> monitor_try env s = (Raise e, s1) \<and> is_Exception e \<longrightarrow>
      monitor_loop env (Suc n) s =
        bind (sleep env 5 (log_msg ''Monitor error: '' s1)) (\<lambda>_ s2. monitor_loop env n s2)) \<and>
   (running s \<and> monitor_try env s = (Raise e, s1) \<and> is_Exception e \<and>
    \<not> interrupted env (sleeps s1) \<longrightarrow>
      monitor_loop env (Suc n) s =
        monitor_loop env n
          (s1\<lparr>sleeps := sleeps s1 + 1, clock := clock s1 + 5,
              log := Sleep 5 # Log ''Monitor error: '' # log s1\<rparr>))"
proof -
  have a: "is_Exception e \<longrightarrow> fst (monitor_service env n s) \<noteq> Raise e"
    using monitor_loop_raises_interrupt_only
      [of env n "log_msg ''Starting service monitoring...'' s" e]
    by (auto simp: monitor_service_def is_Exception_def)
  have b: "monitor_loop env (Suc n) s =
        bind (sleep env 5 (log_msg ''Monitor error: '' s1)) (\<lambda>_ s2. monitor_loop env n s2)"
    if "running s" "monitor_try env s = (Raise e, s1)" "is_Exception e"
    using that by (simp add: is_Exception_def)
  have c: "monitor_loop env (Suc n) s =
        monitor_loop env n
          (s1\<lparr>sleeps := sleeps s1 + 1, clock := clock s1 + 5,
              log := Sleep 5 # Log ''Monitor error: '' # log s1\<rparr>)"
    if "running s" "monitor_try env s = (Raise e, s1)" "is_Exception e"
      "\<not> interrupted env (sleeps s1)"
    using that by (simp add: is_Exception_def sleep_cases log_msg_def emit_def)
  from a b c show ?thesis by blast
qed

theorem monitor_survives_exception_witness:
  "monitor_try (calm\<lparr>poll_live := \<lambda>i. if i = 0 then Inl OSError else Inr False\<rparr>) owning =
     (Raise OSError, owning\<lparr>polls := 1\<rparr>) \<and>
   monitor_loop (calm\<lparr>poll_live := \<lambda>i. if i = 0 then Inl OSError else Inr False\<rparr>) (Suc 1) owning =
     monitor_loop (calm\<lparr>poll_live := \<lambda>i. if i = 0 then Inl OSError else Inr False\<rparr>) 1
       (owning\<lparr>polls := 1, sleeps := 1, clock := 5,
           log := [Sleep 5, Log ''Monitor error: '', Spawn 0 PIPE PIPE]\<rparr>) \<and>
   fst (monitor_service (calm\<lparr>poll_live := \<lambda>i. if i = 0 then Inl OSError else Inr False\<rparr>) 1 owning)
     \<noteq> Raise OSError"
proof -
  let ?env = "calm\<lparr>poll_live := \<lambda>i. if i = 0 then Inl OSError else Inr False\<rparr>"
  let ?s1 = "owning\<lparr>polls := 1\<rparr>"
  note surv = monitor_survives_exception [of OSError ?env 1 owning ?s1]
  have t: "monitor_try ?env owning = (Raise OSError, ?s1)"
    by (simp add: monitor_try_def process_has_exited_def poll_def owning_def init_def calm_def
        Let_def)
  have r: "running owning" "is_Exception OSError" "\<not> interrupted ?env (sleeps ?s1)"
    by (simp_all add: owning_def init_def calm_def is_Exception_def)
  have st: "?s1\<lparr>sleeps := sleeps ?s1 + 1, clock := clock ?s1 + 5,
              log := Sleep 5 # Log ''Monitor error: '' # log ?s1\<rparr> =
            owning\<lparr>polls := 1, sleeps := 1, clock := 5,
              log := [Sleep 5, Log ''Monitor error: '', Spawn 0 PIPE PIPE]\<rparr>"
    by (simp add: owning_def init_def)
  have "monitor_loop ?env (Suc 1) owning =
      monitor_loop ?env 1 (?s1\<lparr>sleeps := sleeps ?s1 + 1, clock := clock ?s1 + 5,
        log := Sleep 5 # Log ''Monitor error: '' # log ?s1\<rparr>)"
    using surv t r by blast
  then have c: "monitor_loop ?env (Suc 1) owning =
      monitor_loop ?env 1 (owning\<lparr>polls := 1, sleeps := 1, clock := 5,
        log := [Sleep 5, Log ''Monitor error: '', Spawn 0 PIPE PIPE]\<rparr>)"
    by (simp only: st)
  have "fst (monitor_service ?env 1 owning) \<noteq> Raise OSError"
    using surv r by blast
  with t c show ?thesis by blast
qed


text \<open>
  Claim C6. In an iteration of the monitoring loop that finds the child exited, or alive
  but unhealthy, and whose restart ends with \<open>wait_for_startup\<close> returning false, the loop
  returns in that very iteration: whatever fuel \<open>n\<close> is left, the final state is the state
  right after the failed wait plus the line \<^verbatim>\<open>Failed to restart service\<close>, so no further
  restart is attempted.
\<close>

theorem failed_restart_is_fatal:
  assumes "running s"
  shows
   "(process_has_exited env s = (Return True, s1) \<and>
     start_service env (log_msg ''Service process died, restarting...'' s1) = (Return ok, s2) \<and>
     wait_for_startup env 30 s2 = (Return False, s3) \<longrightarrow>
       monitor_loop env (Suc n) s = (Return (), log_msg ''Failed to restart service'' s3)) \<and>
    (process_has_exited env s = (Return False, s1) \<and>
     check_health env s1 = (Return False, s2) \<and>
     (case process s2 of
        None \<Rightarrow> (Return (), log_msg ''Service health check failed, restarting...'' s2)
      | Some p \<Rightarrow>
          bind (terminate env p (log_msg ''Service health check failed, restarting...'' s2))
            (\<lambda>_ s3. sleep env 2 s3)) = (Return (), s4) \<and>
     start_service env s4 = (Return ok, s5) \<and>
     wait_for_startup env 30 s5 = (Return False, s6) \<longrightarrow>
       monitor_loop env (Suc n) s = (Return (), log_msg ''Failed to restart service'' s6))"
  using assms by (simp add: monitor_try_def)

theorem failed_restart_is_fatal_witness:
  "monitor_loop (crashing\<lparr>script_exists := \<lambda>i. False, http_get := \<lambda>i. Inl ConnectionError\<rparr>)
      (Suc 7) owning =
     (Return (),
      owning\<lparr>alive := {}, probes := 1, polls := 1, lookups := 1,
        log := [Log ''Failed to restart service'', Log ''Service process died during startup'',
                Probe, Log ''Waiting for service to be ready...'',
                Log ''ERROR: Service script not found: '', Log ''Starting Python ML service...'',
                Log ''Service process died, restarting...'', Reaped 0, Spawn 0 PIPE PIPE]\<rparr>)"
proof -
  let ?env = "crashing\<lparr>script_exists := \<lambda>i. False, http_get := \<lambda>i. Inl ConnectionError\<rparr>"
  let ?s1 = "owning\<lparr>alive := {}, polls := 1, log := [Reaped 0, Spawn 0 PIPE PIPE]\<rparr>"
  let ?s2 = "owning\<lparr>alive := {}, polls := 1, lookups := 1,
        log := [Log ''ERROR: Service script not found: '', Log ''Starting Python ML service...'',
                Log ''Service process died, restarting...'', Reaped 0, Spawn 0 PIPE PIPE]\<rparr>"
  let ?s3 = "owning\<lparr>alive := {}, probes := 1, polls := 1, lookups := 1,
        log := [Log ''Service process died during startup'',
                Probe, Log ''Waiting for service to be ready...'',
                Log ''ERROR: Service script not found: '', Log ''Starting Python ML service...'',
                Log ''Service process died, restarting...'', Reaped 0, Spawn 0 PIPE PIPE]\<rparr>"
  have r: "running owning" by (simp add: owning_def init_def)
  have a: "process_has_exited ?env owning = (Return True, ?s1)"
    by (simp add: eval_defs)
  have b: "start_service ?env (log_msg ''Service process died, restarting...'' ?s1) =
      (Return False, ?s2)"
    by (simp add: eval_defs)
  have c: "wait_for_startup ?env 30 ?s2 = (Return False, ?s3)"
    by (simp add: eval_defs)
  have "monitor_loop ?env (Suc 7) owning = (Return (), log_msg ''Failed to restart service'' ?s3)"
    using failed_restart_is_fatal [OF r, of ?env ?s1 False ?s2 ?s3 7] a b c by blast
  then show ?thesis by (simp add: log_msg_def emit_def owning_def init_def del: monitor_loop.simps)
qed

subsection \<open>The whole run\<close>

text \<open>
  Once both handlers are installed, every way out of \<open>run\<close> goes through \<open>shutdown\<close>: at
  the end \<open>running\<close> is false and the owned handle, if there is one, holds an exit status.
\<close>

lemma run_finally_cleans_up:
  assumes "fst (run_finally env fuel s) \<noteq> Unfinished"
  shows "running (snd (run_finally env fuel s)) = False \<and>
         (\<forall>p. process (snd (run_finally env fuel s)) = Some p \<longrightarrow>
              p \<notin> alive (snd (run_finally env fuel s)))"
proof -
  let ?x = "except_Exception (run_try env fuel s)
              (\<lambda>e s1. (Return None, log_msg ''Service manager error: '' s1))"
  obtain r s1 where x: "?x = (r, s1)" by (cases ?x)
  have "snd (run_finally env fuel s) = snd (shutdown env s1)"
    using assms x by (cases r) (auto simp: run_finally_def bind_shutdown split: option.splits)
  then show ?thesis
    using shutdown_reaps [of s1 _ env] by (simp add: shutdown_fields)
qed

text \<open>
  An interrupt signal during the first sleep of the monitoring loop: the installed
  handler runs \<open>shutdown\<close> and leaves through \<^verbatim>\<open>sys.exit(0)\<close>, and the \<^verbatim>\<open>finally\<close> block of
  \<open>run\<close> runs \<open>shutdown\<close> once more on the way out.
\<close>

lemma interrupt_runs_shutdown_twice:
  "fst (main interrupting 5) = Exit 0 \<and>
   count_log ''Received signal '' (snd (main interrupting 5)) = 1 \<and>
   count_log ''Shutting down service...'' (snd (main interrupting 5)) = 2 \<and>
   alive (snd (main interrupting 5)) = {}"
  by (simp add: eval_defs count_log_def)


text \<open>
  Claim C2, at the input where the code departs from it. The first start succeeds and the
  child is healthy; then the child exits and cannot be started again. The restart's
  \<open>wait_for_startup\<close> fails, the monitoring loop logs \<^verbatim>\<open>Failed to restart service\<close> and
  ends, and \<open>run\<close> falls to its final \<^verbatim>\<open>return True\<close>: the process exits with code \<open>0\<close>. The
  same failure of \<open>wait_for_startup\<close> at the first start makes \<open>run\<close> return false and
  the process exit with code \<open>1\<close>. The exit code is \<open>0\<close> as well when the first
  \<open>wait_for_startup\<close> ends in an \<^verbatim>\<open>Exception\<close> before any probe was healthy: the handler
  of \<open>run\<close> logs it and \<open>run\<close> returns true.
\<close>

theorem failed_restart_exits_zero:
  "fst (run restart_fails 5 init) = Return True \<and>
   fst (main restart_fails 5) = Exit 0 \<and>
   Log ''Failed to restart service'' \<in> set (log (snd (main restart_fails 5))) \<and>
   fst (run never_ready 5 init) = Return False \<and>
   fst (main never_ready 5) = Exit 1 \<and>
   fst (main never_healthy 5) = Exit 0 \<and>
   Log ''Service manager error: '' \<in> set (log (snd (main never_healthy 5))) \<and>
   count_log ''Service is healthy and ready!'' (snd (main never_healthy 5)) = 0"
  by (simp add: eval_defs count_log_def)

end
